theory Spec2Isabelle
  imports Complex_Main "HOL-Library.Sublist" "HOL-Library.AList" "HOL-Library.Log_Nat"
begin

section \<open>Numbers\<close>

text \<open>
  The program computes on ECMAScript Numbers, the binary64 values of IEEE 754. A number
  is \<open>NaN\<close>, an infinity, or finite with a real value. Every arithmetic operation on
  finite numbers computes the real result and rounds it with \<open>fl\<close> to the nearest
  binary64 value, a tie going to the even significand, and to an infinity from
  \<open>2\<^sup>1\<^sup>0\<^sup>2\<^sup>4 - 2\<^sup>9\<^sup>7\<^sup>0\<close> on. The special cases of each operator follow ECMA-262
  (Number::add, Number::multiply, Number::divide, Number::exponentiate). The sign of
  zero is not modelled; \<open>Math.pow\<close> and \<open>Math.sqrt\<close> are taken as correctly rounded.
\<close>

datatype number = NaN | PosInfinity | NegInfinity | Finite real

text \<open>The sign of an infinite result: \<open>True\<close> is positive.\<close>

definition signed_infinity :: "bool \<Rightarrow> number" where
  "signed_infinity pos = (if pos then PosInfinity else NegInfinity)"

text \<open>
  Rounding to binary64. \<open>pow2 k\<close> is \<open>2\<^sup>k\<close>; \<open>ilog2 a\<close> is the exponent \<open>e\<close> with
  \<open>2\<^sup>e \<le> a < 2\<^sup>e\<^sup>+\<^sup>1\<close> of a positive \<open>a\<close>; \<open>rne\<close> rounds to the nearest integer, a tie
  to the even one. A value with exponent \<open>e\<close> is rounded to a multiple of
  \<open>2\<^sup>e\<^sup>-\<^sup>5\<^sup>2\<close> (53 significant bits), below \<open>2\<^sup>-\<^sup>1\<^sup>0\<^sup>2\<^sup>2\<close> to a multiple of
  \<open>2\<^sup>-\<^sup>1\<^sup>0\<^sup>7\<^sup>4\<close> (the subnormal numbers); a rounded value of \<open>2\<^sup>1\<^sup>0\<^sup>2\<^sup>4\<close> or more
  is an infinity.
\<close>

definition pow2 :: "int \<Rightarrow> real" where
  "pow2 k = (if 0 \<le> k then 2 ^ nat k else 1 / 2 ^ nat (- k))"

definition ilog2 :: "real \<Rightarrow> int" where
  "ilog2 a = (if 1 \<le> a then bitlen \<lfloor>a\<rfloor> - 1 else - bitlen (\<lceil>1 / a\<rceil> - 1))"

definition rne :: "real \<Rightarrow> int" where
  "rne q = (let r = \<lfloor>q\<rfloor>; f = q - of_int r
            in if f < 1 / 2 then r else if 1 / 2 < f then r + 1
               else if even r then r else r + 1)"

definition fl :: "real \<Rightarrow> number" where
  "fl x =
     (if x = 0 then Finite 0
      else let e = max (ilog2 \<bar>x\<bar>) (- 1022);
               ulp = pow2 (e - 52);
               m = rne (\<bar>x\<bar> / ulp)
           in if 1024 \<le> e \<or> (e = 1023 \<and> m = 2 ^ 53) then signed_infinity (0 < x)
              else Finite (if 0 < x then of_int m * ulp else - (of_int m * ulp)))"

fun isNaN :: "number \<Rightarrow> bool" where
  "isNaN NaN = True"
| "isNaN _ = False"

fun isFinite :: "number \<Rightarrow> bool" where
  "isFinite (Finite _) = True"
| "isFinite _ = False"

fun num_neg :: "number \<Rightarrow> number" where
  "num_neg NaN = NaN"
| "num_neg PosInfinity = NegInfinity"
| "num_neg NegInfinity = PosInfinity"
| "num_neg (Finite x) = Finite (- x)"

fun num_add :: "number \<Rightarrow> number \<Rightarrow> number" where
  "num_add NaN _ = NaN"
| "num_add _ NaN = NaN"
| "num_add PosInfinity NegInfinity = NaN"
| "num_add NegInfinity PosInfinity = NaN"
| "num_add PosInfinity _ = PosInfinity"
| "num_add NegInfinity _ = NegInfinity"
| "num_add (Finite x) PosInfinity = PosInfinity"
| "num_add (Finite x) NegInfinity = NegInfinity"
| "num_add (Finite x) (Finite y) = fl (x + y)"

definition num_sub :: "number \<Rightarrow> number \<Rightarrow> number" where
  "num_sub a b = num_add a (num_neg b)"

fun num_mul :: "number \<Rightarrow> number \<Rightarrow> number" where
  "num_mul NaN _ = NaN"
| "num_mul _ NaN = NaN"
| "num_mul (Finite x) (Finite y) = fl (x * y)"
| "num_mul (Finite x) PosInfinity = (if x = 0 then NaN else signed_infinity (0 < x))"
| "num_mul (Finite x) NegInfinity = (if x = 0 then NaN else signed_infinity (x < 0))"
| "num_mul PosInfinity (Finite y) = (if y = 0 then NaN else signed_infinity (0 < y))"
| "num_mul NegInfinity (Finite y) = (if y = 0 then NaN else signed_infinity (y < 0))"
| "num_mul PosInfinity PosInfinity = PosInfinity"
| "num_mul PosInfinity NegInfinity = NegInfinity"
| "num_mul NegInfinity PosInfinity = NegInfinity"
| "num_mul NegInfinity NegInfinity = PosInfinity"

fun num_div :: "number \<Rightarrow> number \<Rightarrow> number" where
  "num_div NaN _ = NaN"
| "num_div _ NaN = NaN"
| "num_div (Finite x) (Finite y) =
     (if y = 0 then (if x = 0 then NaN else signed_infinity (0 < x)) else fl (x / y))"
| "num_div (Finite x) _ = Finite 0"
| "num_div PosInfinity (Finite y) = signed_infinity (0 \<le> y)"
| "num_div NegInfinity (Finite y) = signed_infinity (y < 0)"
| "num_div _ _ = NaN"

text \<open>\<open>a > b\<close> and \<open>a === b\<close>: every comparison with \<open>NaN\<close> is false.\<close>

fun num_gt :: "number \<Rightarrow> number \<Rightarrow> bool" where
  "num_gt NaN _ = False"
| "num_gt _ NaN = False"
| "num_gt (Finite x) (Finite y) = (y < x)"
| "num_gt PosInfinity b = (b \<noteq> PosInfinity)"
| "num_gt NegInfinity _ = False"
| "num_gt (Finite x) PosInfinity = False"
| "num_gt (Finite x) NegInfinity = True"

fun num_eq :: "number \<Rightarrow> number \<Rightarrow> bool" where
  "num_eq NaN _ = False"
| "num_eq _ NaN = False"
| "num_eq a b = (a = b)"

fun Math_sqrt :: "number \<Rightarrow> number" where
  "Math_sqrt NaN = NaN"
| "Math_sqrt PosInfinity = PosInfinity"
| "Math_sqrt NegInfinity = NaN"
| "Math_sqrt (Finite x) = (if x < 0 then NaN else fl (sqrt x))"

text \<open>
  \<open>Math.round\<close>: the nearest integer, a tie going towards \<open>+\<infinity>\<close>; it is a binary64
  value whenever the argument is one.
\<close>

fun Math_round :: "number \<Rightarrow> number" where
  "Math_round (Finite x) = Finite (of_int \<lfloor>x + 1 / 2\<rfloor>)"
| "Math_round n = n"

definition is_integer :: "real \<Rightarrow> bool" where
  "is_integer y = (of_int \<lfloor>y\<rfloor> = y)"

definition is_odd_integer :: "real \<Rightarrow> bool" where
  "is_odd_integer y = (is_integer y \<and> odd \<lfloor>y\<rfloor>)"

text \<open>The power of a finite non-zero base; a negative base only has integer exponents.\<close>

definition real_pow :: "real \<Rightarrow> real \<Rightarrow> real" where
  "real_pow x y =
     (if 0 < x then x powr y
      else if is_odd_integer y then - (\<bar>x\<bar> powr y) else \<bar>x\<bar> powr y)"

fun Math_pow :: "number \<Rightarrow> number \<Rightarrow> number" where
  "Math_pow _ NaN = NaN"
| "Math_pow b (Finite y) =
     (if y = 0 then Finite 1
      else (case b of
        NaN \<Rightarrow> NaN
      | PosInfinity \<Rightarrow> (if 0 < y then PosInfinity else Finite 0)
      | NegInfinity \<Rightarrow>
          (if 0 < y then (if is_odd_integer y then NegInfinity else PosInfinity) else Finite 0)
      | Finite x \<Rightarrow>
          (if x = 0 then (if 0 < y then Finite 0 else PosInfinity)
           else if x < 0 \<and> \<not> is_integer y then NaN
           else fl (real_pow x y))))"
| "Math_pow b PosInfinity =
     (case b of
        NaN \<Rightarrow> NaN
      | Finite x \<Rightarrow> (if 1 < \<bar>x\<bar> then PosInfinity else if \<bar>x\<bar> = 1 then NaN else Finite 0)
      | _ \<Rightarrow> PosInfinity)"
| "Math_pow b NegInfinity =
     (case b of
        NaN \<Rightarrow> NaN
      | Finite x \<Rightarrow> (if 1 < \<bar>x\<bar> then Finite 0 else if \<bar>x\<bar> = 1 then NaN else PosInfinity)
      | _ \<Rightarrow> Finite 0)"

section \<open>Data model (types/index.ts)\<close>

text \<open>
  A row of the input is an object from column names to strings; a missing column reads
  as \<open>undefined\<close>, here \<open>None\<close>. The field \<open>value\<close> of a measurement is called
  \<open>val\<close>. Records that share a field name are told apart by qualified names.
\<close>

type_synonym RawDataRow = "string \<rightharpoonup> string"

record ParsedTsvData =
  title :: string
  headers :: "string list"
  rows :: "RawDataRow list"

record ProcessingConfig =
  replicaCount :: int
  housekeeper :: string
  samples :: "string list"
  controls :: "string list"

record CtMeasurement =
  val :: number
  rowIndex :: nat

record ReplicaGroup =
  sampleName :: string
  sampleNumber :: nat
  ctValues :: "number list"

record GeneData =
  name :: string
  measurements :: "CtMeasurement list"
  replicaGroups :: "ReplicaGroup list"

record ProcessingTableRow =
  sampleNumber :: nat
  sampleName :: string
  ctValues :: "number list"
  ctStd :: number
  ctMean :: number
  hkCtValues :: "number list"
  hkCtStd :: number
  hkCtMean :: number
  deltaCt :: number
  deltaDeltaCt :: number
  combinedStd :: number
  foldChange :: number
  sem :: number
  isReplicaRow :: bool
  replicaIndex :: "nat option"

record GeneProcessingResult =
  geneName :: string
  rows :: "ProcessingTableRow list"
  firstDeltaCt :: number

record FoldChangeTableRow =
  controlName :: string
  controlFoldChange :: number
  observedName :: string
  observedFoldChange :: number

record NormalizedTableRow =
  controlName :: string
  normalizedControl :: number
  observedName :: string
  normalizedObserved :: number

record GeneOutputResult =
  geneName :: string
  foldChangeRows :: "FoldChangeTableRow list"
  controlAverage :: number
  normalizedRows :: "NormalizedTableRow list"

text \<open>
  A \<open>Map\<close> keeps its keys in insertion order: an association list, read with
  \<^const>\<open>map_of\<close> and written with \<^const>\<open>AList.update\<close>, which replaces the value of
  a key in place and appends a new key at the end, as \<open>Map.prototype.set\<close> does.
\<close>

type_synonym ('k, 'v) js_map = "('k \<times> 'v) list"

text \<open>Reading an array at an index: \<open>undefined\<close> outside the array.\<close>

definition at_index :: "'a list \<Rightarrow> nat \<Rightarrow> 'a option" where
  "at_index xs i = (if i < length xs then Some (xs ! i) else None)"

text \<open>The errors the processing functions throw.\<close>

datatype error = CtColumnNotDetected | HousekeeperNotFound string

section \<open>Statistics (statistics.ts)\<close>

definition mean :: "number list \<Rightarrow> number" where
  "mean values =
     (if length values = 0 then Finite 0
      else let sum = foldl (\<lambda>acc v. num_add acc v) (Finite 0) values
           in num_div sum (Finite (real (length values))))"

definition standardDeviation :: "number list \<Rightarrow> number" where
  "standardDeviation values =
     (if length values < 2 then Finite 0
      else let avg = mean values;
               squaredDiffs = map (\<lambda>v. Math_pow (num_sub v avg) (Finite 2)) values;
               variance = num_div (foldl (\<lambda>acc v. num_add acc v) (Finite 0) squaredDiffs)
                                  (Finite (real (length values) - 1))
           in Math_sqrt variance)"

definition combinedStandardDeviation :: "number \<Rightarrow> number \<Rightarrow> number" where
  "combinedStandardDeviation std1 std2 =
     Math_sqrt (num_add (Math_pow std1 (Finite 2)) (Math_pow std2 (Finite 2)))"

definition sem :: "number \<Rightarrow> number \<Rightarrow> number \<Rightarrow> number" where
  "sem combined n1 n2 =
     (if num_eq (num_add n1 n2) (Finite 0) then Finite 0
      else num_div combined (Math_sqrt (num_div (num_add n1 n2) (Finite 2))))"

definition foldChange :: "number \<Rightarrow> number" where
  "foldChange ddCt = Math_pow (Finite 2) (num_neg ddCt)"

definition roundTo :: "number \<Rightarrow> number \<Rightarrow> number" where
  "roundTo v decimals =
     (let factor = Math_pow (Finite 10) decimals
      in num_div (Math_round (num_mul v factor)) factor)"

section \<open>Grouping measurements into replicas (ct-calculator.ts)\<close>

text \<open>
  \<open>Array.prototype.slice(start, end)\<close> on integers: a negative index counts from the
  end, both are clamped to the array.
\<close>

definition slice :: "'a list \<Rightarrow> int \<Rightarrow> int \<Rightarrow> 'a list" where
  "slice xs start stop =
     (let len = int (length xs);
          k = (if start < 0 then max (len + start) 0 else min start len);
          final = (if stop < 0 then max (len + stop) 0 else min stop len)
      in take (nat (final - k)) (drop (nat k) xs))"

text \<open>
  The loop of \<open>groupIntoReplicas\<close>, from index \<open>i\<close> with the groups pushed so far;
  \<open>break\<close> returns them.
\<close>

function groupIntoReplicas_loop ::
  "CtMeasurement list \<Rightarrow> int \<Rightarrow> string list \<Rightarrow> nat \<Rightarrow> ReplicaGroup list \<Rightarrow> ReplicaGroup list"
where
  "groupIntoReplicas_loop ms rc sampleNames i groups =
     (if i < length sampleNames then
        (let startIndex = int i * rc;
             endIndex = startIndex + rc
         in if endIndex > int (length ms) then groups
            else groupIntoReplicas_loop ms rc sampleNames (Suc i)
                   (groups @ [\<lparr> ReplicaGroup.sampleName = sampleNames ! i,
                                ReplicaGroup.sampleNumber = i + 1,
                                ReplicaGroup.ctValues = map val (slice ms startIndex endIndex) \<rparr>]))
      else groups)"
  by pat_completeness auto
termination
  by (relation "measure (\<lambda>(ms, rc, sampleNames, i, groups). length sampleNames - i)") auto

declare groupIntoReplicas_loop.simps [simp del]

definition groupIntoReplicas ::
  "CtMeasurement list \<Rightarrow> int \<Rightarrow> string list \<Rightarrow> ReplicaGroup list" where
  "groupIntoReplicas ms rc sampleNames = groupIntoReplicas_loop ms rc sampleNames 0 []"

text \<open>
  The group the specification describes for sample index \<open>i\<close> and \<open>n\<close> replicas:
  the measurements \<open>[i * n, i * n + n)\<close>, sample number \<open>i + 1\<close>, the caller's name.
\<close>

definition spec_group :: "CtMeasurement list \<Rightarrow> nat \<Rightarrow> string list \<Rightarrow> nat \<Rightarrow> ReplicaGroup" where
  "spec_group ms n sampleNames i =
     \<lparr> ReplicaGroup.sampleName = sampleNames ! i,
       ReplicaGroup.sampleNumber = i + 1,
       ReplicaGroup.ctValues = map val (take n (drop (i * n) ms)) \<rparr>"

section \<open>Strings and \<open>parseFloat\<close>\<close>

text \<open>
  A string is a list of code units below 256. White space is what \<open>trim\<close>, \<open>\s\<close>
  and \<open>parseFloat\<close> skip in that range: tab, line feed, vertical tab, form feed,
  carriage return, space and the no-break space.
\<close>

definition is_ws :: "char \<Rightarrow> bool" where
  "is_ws c = (of_char c \<in> {9, 10, 11, 12, 13, 32, 160 :: nat})"

definition is_digit :: "char \<Rightarrow> bool" where
  "is_digit c = (48 \<le> (of_char c :: nat) \<and> (of_char c :: nat) \<le> 57)"

definition digit_val :: "char \<Rightarrow> nat" where
  "digit_val c = of_char c - 48"

definition trim :: "string \<Rightarrow> string" where
  "trim s = rev (dropWhile is_ws (rev (dropWhile is_ws s)))"

text \<open>\<open>toLowerCase\<close>: the letters A-Z and the capital letters of Latin-1.\<close>

definition lower_char :: "char \<Rightarrow> char" where
  "lower_char c =
     (let n = (of_char c :: nat)
      in if (65 \<le> n \<and> n \<le> 90) \<or> (192 \<le> n \<and> n \<le> 222 \<and> n \<noteq> 215)
         then char_of (n + 32) else c)"

definition toLowerCase :: "string \<Rightarrow> string" where
  "toLowerCase s = map lower_char s"

text \<open>\<open>s.includes(sub)\<close>: \<open>sub\<close> occurs in \<open>s\<close> as a contiguous substring.\<close>

fun str_includes :: "string \<Rightarrow> string \<Rightarrow> bool" where
  "str_includes [] sub = (sub = [])"
| "str_includes (c # cs) sub = (prefix sub (c # cs) \<or> str_includes cs sub)"

definition digits_val :: "string \<Rightarrow> nat" where
  "digits_val ds = foldl (\<lambda>acc c. 10 * acc + digit_val c) 0 ds"

text \<open>
  \<open>parseFloat\<close> reads the longest prefix that is a StrDecimalLiteral, after leading
  white space: a sign, then \<open>Infinity\<close> or digits with an optional fraction and an
  optional exponent. No such prefix gives \<open>NaN\<close>. The result is the value of the
  decimal literal rounded to binary64.
\<close>

definition scale10 :: "real \<Rightarrow> int \<Rightarrow> real" where
  "scale10 m e = (if 0 \<le> e then m * 10 ^ nat e else m / 10 ^ nat (- e))"

definition parse_exponent :: "string \<Rightarrow> int" where
  "parse_exponent s =
     (case s of
        [] \<Rightarrow> 0
      | c # r \<Rightarrow>
          if c = CHR ''e'' \<or> c = CHR ''E'' then
            (let (neg, r') = (case r of
                                [] \<Rightarrow> (False, r)
                              | d # t \<Rightarrow> if d = CHR ''-'' then (True, t)
                                         else if d = CHR ''+'' then (False, t)
                                         else (False, r));
                 ds = takeWhile is_digit r'
             in if ds = [] then 0
                else if neg then - int (digits_val ds) else int (digits_val ds))
          else 0)"

definition parse_unsigned :: "string \<Rightarrow> number" where
  "parse_unsigned u =
     (if prefix ''Infinity'' u then PosInfinity
      else let ip = takeWhile is_digit u;
               r1 = dropWhile is_digit u;
               (fp, r2) = (case r1 of
                             [] \<Rightarrow> ([], r1)
                           | c # t \<Rightarrow> if c = CHR ''.''
                                      then (takeWhile is_digit t, dropWhile is_digit t)
                                      else ([], r1))
           in if ip = [] \<and> fp = [] then NaN
              else fl (scale10 (real (digits_val ip)
                                 + real (digits_val fp) / 10 ^ length fp)
                               (parse_exponent r2)))"

definition parseFloat :: "string \<Rightarrow> number" where
  "parseFloat s =
     (let t = dropWhile is_ws s
      in case t of
           [] \<Rightarrow> NaN
         | c # r \<Rightarrow> if c = CHR ''-'' then num_neg (parse_unsigned r)
                    else if c = CHR ''+'' then parse_unsigned r
                    else parse_unsigned t)"

section \<open>Reading the table (tsv-parser.ts)\<close>

text \<open>The regular expression \<open>/^Sample\s*\d+$/i\<close>.\<close>

definition sample_pattern :: "string \<Rightarrow> bool" where
  "sample_pattern s =
     (map lower_char (take 6 s) = ''sample'' \<and>
      (let r = dropWhile is_ws (drop 6 s) in r \<noteq> [] \<and> list_all is_digit r))"

definition shouldIgnoreRow :: "RawDataRow \<Rightarrow> bool" where
  "shouldIgnoreRow row =
     (let nm = (case row ''Name'' of Some n \<Rightarrow> n | None \<Rightarrow> [])
      in sample_pattern (trim nm))"

text \<open>
  The first two searches of \<open>detectCtColumn\<close>: for each name in turn, the first header
  that satisfies the test, returned when it is a non-empty string.
\<close>

fun find_header :: "(string \<Rightarrow> string \<Rightarrow> bool) \<Rightarrow> string list \<Rightarrow> string list \<Rightarrow> string option" where
  "find_header test hs [] = None"
| "find_header test hs (n # ns) =
     (case find (\<lambda>h. test h n) hs of
        Some header \<Rightarrow> if header \<noteq> [] then Some header else find_header test hs ns
      | None \<Rightarrow> find_header test hs ns)"

definition hasDecimalValues :: "RawDataRow list \<Rightarrow> string \<Rightarrow> bool" where
  "hasDecimalValues rs header =
     list_ex (\<lambda>row.
        case row header of
          None \<Rightarrow> False
        | Some v \<Rightarrow>
            if v = [] then False
            else (let num = parseFloat v
                  in \<not> isNaN num \<and> num_gt num (Finite 0) \<and> str_includes v ''.''))
       rs"

fun find_decimal_column :: "RawDataRow list \<Rightarrow> string list \<Rightarrow> string option" where
  "find_decimal_column rs [] = None"
| "find_decimal_column rs (header # hs) =
     (if header = ''Name'' then find_decimal_column rs hs
      else if hasDecimalValues rs header then Some header
      else find_decimal_column rs hs)"

definition detectCtColumn :: "ParsedTsvData \<Rightarrow> string option" where
  "detectCtColumn data =
     (let ctColumnNames = [''cp'', ''ct'', ''cq'']
      in case find_header (\<lambda>h n. toLowerCase h = n) (headers data) ctColumnNames of
           Some header \<Rightarrow> Some header
         | None \<Rightarrow>
            (case find_header (\<lambda>h n. str_includes (toLowerCase h) n) (headers data) ctColumnNames of
               Some header \<Rightarrow> Some header
             | None \<Rightarrow> find_decimal_column (ParsedTsvData.rows data) (headers data)))"

section \<open>Extracting gene data (ct-calculator.ts)\<close>

text \<open>
  The argument of \<open>parseFloat\<close> in \<open>parseFloat(row[ctColumn])\<close>: a column the
  row lacks reads as \<open>undefined\<close>, which \<open>parseFloat\<close> converts to the string
  \<open>undefined\<close>.
\<close>

definition ct_field :: "string \<Rightarrow> RawDataRow \<Rightarrow> string" where
  "ct_field ctColumn row = (case row ctColumn of Some v \<Rightarrow> v | None \<Rightarrow> ''undefined'')"

text \<open>The callback of \<open>data.rows.forEach\<close>, on the gene map built so far.\<close>

definition extract_row ::
  "string \<Rightarrow> (string, GeneData) js_map \<Rightarrow> RawDataRow \<times> nat \<Rightarrow> (string, GeneData) js_map" where
  "extract_row ctColumn geneMap entry =
     (let (row, index) = entry
      in if shouldIgnoreRow row then geneMap
         else case row ''Name'' of
           None \<Rightarrow> geneMap
         | Some gene \<Rightarrow>
             if gene = [] then geneMap
             else let ctValue = parseFloat (ct_field ctColumn row)
                  in if isNaN ctValue then geneMap
                     else let geneMap' =
                                (if map_of geneMap gene = None
                                 then AList.update gene
                                        \<lparr> name = gene, measurements = [], replicaGroups = [] \<rparr>
                                        geneMap
                                 else geneMap)
                          in (case map_of geneMap' gene of
                                None \<Rightarrow> geneMap'
                              | Some geneData \<Rightarrow>
                                  AList.update gene
                                    (geneData\<lparr> measurements :=
                                       measurements geneData @ [\<lparr> val = ctValue, rowIndex = index \<rparr>] \<rparr>)
                                    geneMap'))"

definition extractGeneData :: "ParsedTsvData \<Rightarrow> error + (string, GeneData) js_map" where
  "extractGeneData data =
     (case detectCtColumn data of
        None \<Rightarrow> Inl CtColumnNotDetected
      | Some ctColumn \<Rightarrow>
          if ctColumn = [] then Inl CtColumnNotDetected
          else Inr (foldl (extract_row ctColumn) []
                      (zip (ParsedTsvData.rows data) [0 ..< length (ParsedTsvData.rows data)])))"

definition buildGeneDataWithGroups ::
  "ParsedTsvData \<Rightarrow> int \<Rightarrow> string list \<Rightarrow> error + (string, GeneData) js_map" where
  "buildGeneDataWithGroups data rc sampleNames =
     (case extractGeneData data of
        Inl e \<Rightarrow> Inl e
      | Inr geneMap \<Rightarrow>
          Inr (map (\<lambda>(gene, geneData).
                  (gene, geneData\<lparr> replicaGroups :=
                           groupIntoReplicas (measurements geneData) rc sampleNames \<rparr>))
                 geneMap))"

section \<open>Delta calculator (delta-calculator.ts)\<close>

text \<open>
  Both passes of \<open>calculateProcessingRows\<close> run over the indices of the target gene's
  groups and \<open>continue\<close> where the housekeeper has no group at that index.
\<close>

definition deltaCts_pass :: "ReplicaGroup list \<Rightarrow> ReplicaGroup list \<Rightarrow> number list" where
  "deltaCts_pass targetGroups hkGroups =
     foldl (\<lambda>deltaCts i.
        case (at_index targetGroups i, at_index hkGroups i) of
          (Some targetGroup, Some hkGroup) \<Rightarrow>
            (let targetMean = mean (ReplicaGroup.ctValues targetGroup);
                 hkMean = mean (ReplicaGroup.ctValues hkGroup)
             in deltaCts @ [num_sub targetMean hkMean])
        | _ \<Rightarrow> deltaCts)
       [] [0 ..< length targetGroups]"

definition summary_row ::
  "ReplicaGroup \<Rightarrow> ReplicaGroup \<Rightarrow> number \<Rightarrow> int \<Rightarrow> ProcessingTableRow" where
  "summary_row targetGroup hkGroup referenceDeltaCt rc =
     (let mean_ct = mean (ReplicaGroup.ctValues targetGroup);
          std_ct = standardDeviation (ReplicaGroup.ctValues targetGroup);
          hkMean = mean (ReplicaGroup.ctValues hkGroup);
          hkStd = standardDeviation (ReplicaGroup.ctValues hkGroup);
          dCt = num_sub mean_ct hkMean;
          ddCt = num_sub dCt referenceDeltaCt;
          combined = combinedStandardDeviation std_ct hkStd;
          semValue = sem combined (Finite (real_of_int rc)) (Finite (real_of_int rc));
          foldChangeValue = foldChange ddCt
      in \<lparr> ProcessingTableRow.sampleNumber = ReplicaGroup.sampleNumber targetGroup,
           ProcessingTableRow.sampleName = ReplicaGroup.sampleName targetGroup,
           ProcessingTableRow.ctValues = ReplicaGroup.ctValues targetGroup,
           ctStd = std_ct,
           ctMean = mean_ct,
           hkCtValues = ReplicaGroup.ctValues hkGroup,
           hkCtStd = hkStd,
           hkCtMean = hkMean,
           deltaCt = dCt,
           deltaDeltaCt = ddCt,
           combinedStd = combined,
           ProcessingTableRow.foldChange = foldChangeValue,
           ProcessingTableRow.sem = semValue,
           isReplicaRow = False,
           replicaIndex = None \<rparr>)"

definition replica_row :: "ReplicaGroup \<Rightarrow> ReplicaGroup \<Rightarrow> nat \<Rightarrow> ProcessingTableRow" where
  "replica_row targetGroup hkGroup r =
     \<lparr> ProcessingTableRow.sampleNumber = ReplicaGroup.sampleNumber targetGroup,
       ProcessingTableRow.sampleName = ReplicaGroup.sampleName targetGroup,
       ProcessingTableRow.ctValues = [ReplicaGroup.ctValues targetGroup ! r],
       ctStd = Finite 0,
       ctMean = Finite 0,
       hkCtValues = [case at_index (ReplicaGroup.ctValues hkGroup) r of
                       Some v \<Rightarrow> v | None \<Rightarrow> Finite 0],
       hkCtStd = Finite 0,
       hkCtMean = Finite 0,
       deltaCt = Finite 0,
       deltaDeltaCt = Finite 0,
       combinedStd = Finite 0,
       ProcessingTableRow.foldChange = Finite 0,
       ProcessingTableRow.sem = Finite 0,
       isReplicaRow = True,
       replicaIndex = Some r \<rparr>"

text \<open>The inner loop: one replica row for each \<open>r < replicaCount\<close> that the target group has.\<close>

definition replica_rows :: "ReplicaGroup \<Rightarrow> ReplicaGroup \<Rightarrow> int \<Rightarrow> ProcessingTableRow list" where
  "replica_rows targetGroup hkGroup rc =
     foldl (\<lambda>acc r.
        if r < length (ReplicaGroup.ctValues targetGroup)
        then acc @ [replica_row targetGroup hkGroup r] else acc)
       [] [0 ..< nat rc]"

definition calculateProcessingRows ::
  "GeneData \<Rightarrow> GeneData \<Rightarrow> ProcessingConfig \<Rightarrow> ProcessingTableRow list" where
  "calculateProcessingRows targetGene housekeeperGene config =
     (let rc = replicaCount config;
          deltaCts = deltaCts_pass (replicaGroups targetGene) (replicaGroups housekeeperGene);
          referenceDeltaCt = (if length deltaCts > 0 then deltaCts ! 0 else Finite 0)
      in foldl (\<lambda>acc i.
           case (at_index (replicaGroups targetGene) i,
                 at_index (replicaGroups housekeeperGene) i) of
             (Some targetGroup, Some hkGroup) \<Rightarrow>
               acc @ [summary_row targetGroup hkGroup referenceDeltaCt rc]
                   @ replica_rows targetGroup hkGroup rc
           | _ \<Rightarrow> acc)
          [] [0 ..< length (replicaGroups targetGene)])"

definition processGene ::
  "GeneData \<Rightarrow> GeneData \<Rightarrow> ProcessingConfig \<Rightarrow> GeneProcessingResult" where
  "processGene targetGene housekeeperGene config =
     (let rs = calculateProcessingRows targetGene housekeeperGene config;
          firstMainRow = find (\<lambda>r. \<not> isReplicaRow r) rs;
          first = (case firstMainRow of Some r \<Rightarrow> deltaCt r | None \<Rightarrow> Finite 0)
      in \<lparr> GeneProcessingResult.geneName = name targetGene,
           GeneProcessingResult.rows = rs,
           firstDeltaCt = first \<rparr>)"

definition processAllGenes ::
  "(string, GeneData) js_map \<Rightarrow> string \<Rightarrow> ProcessingConfig
     \<Rightarrow> error + (string, GeneProcessingResult) js_map" where
  "processAllGenes geneDataMap housekeeperName config =
     (case map_of geneDataMap housekeeperName of
        None \<Rightarrow> Inl (HousekeeperNotFound housekeeperName)
      | Some housekeeperData \<Rightarrow>
          Inr (foldl (\<lambda>results (gene, geneData).
                  if gene = housekeeperName then results
                  else AList.update gene (processGene geneData housekeeperData config) results)
                [] geneDataMap))"

section \<open>Normalizer\<close>

definition foldChange_lookup :: "GeneProcessingResult \<Rightarrow> string \<Rightarrow> number" where
  "foldChange_lookup result sample =
     (case find (\<lambda>r. \<not> isReplicaRow r \<and> ProcessingTableRow.sampleName r = sample)
             (GeneProcessingResult.rows result) of
        Some r \<Rightarrow> ProcessingTableRow.foldChange r
      | None \<Rightarrow> Finite 0)"

definition buildFoldChangeTable ::
  "GeneProcessingResult \<Rightarrow> string list \<Rightarrow> string list \<Rightarrow> FoldChangeTableRow list" where
  "buildFoldChangeTable result ctrls allSamples =
     (let observed = filter (\<lambda>s. s \<notin> set ctrls) allSamples;
          observedCount = min (length observed) (length ctrls);
          observedSamples = slice observed 0 (int observedCount);
          rowCount = max (length ctrls) (length observedSamples)
      in foldl (\<lambda>acc i.
           let cName = (case at_index ctrls i of Some c \<Rightarrow> c | None \<Rightarrow> []);
               oName = (case at_index observedSamples i of Some c \<Rightarrow> c | None \<Rightarrow> [])
           in acc @ [\<lparr> FoldChangeTableRow.controlName = cName,
                        controlFoldChange = foldChange_lookup result cName,
                        FoldChangeTableRow.observedName = oName,
                        observedFoldChange = foldChange_lookup result oName \<rparr>])
          [] [0 ..< rowCount])"

definition calculateControlAverage :: "FoldChangeTableRow list \<Rightarrow> number" where
  "calculateControlAverage fcRows =
     (let controlValues =
            map controlFoldChange
              (filter (\<lambda>row. FoldChangeTableRow.controlName row \<noteq> [] \<and>
                             num_gt (controlFoldChange row) (Finite 0)) fcRows)
      in if length controlValues > 0 then mean controlValues else Finite 1)"

definition buildNormalizedTable :: "FoldChangeTableRow list \<Rightarrow> number \<Rightarrow> NormalizedTableRow list" where
  "buildNormalizedTable fcRows average =
     (let divisor = (if num_eq average (Finite 0) then Finite 1 else average)
      in map (\<lambda>row. \<lparr> NormalizedTableRow.controlName = FoldChangeTableRow.controlName row,
                       normalizedControl = num_div (controlFoldChange row) divisor,
                       NormalizedTableRow.observedName = FoldChangeTableRow.observedName row,
                       normalizedObserved = num_div (observedFoldChange row) divisor \<rparr>)
           fcRows)"

definition generateGeneOutput ::
  "GeneProcessingResult \<Rightarrow> string list \<Rightarrow> string list \<Rightarrow> GeneOutputResult" where
  "generateGeneOutput result ctrls allSamples =
     (let fcRows = buildFoldChangeTable result ctrls allSamples;
          average = calculateControlAverage fcRows;
          normalized = buildNormalizedTable fcRows average
      in \<lparr> GeneOutputResult.geneName = GeneProcessingResult.geneName result,
           foldChangeRows = fcRows,
           controlAverage = roundTo average (Finite 4),
           normalizedRows = normalized \<rparr>)"

text \<open>
  The reference \<open>\<Delta>CT\<close> of a pair of genes as the specification words it: the
  \<open>\<Delta>CT\<close> of the first sample both genes have a group for, 0 when there is none.
\<close>

definition reference_of :: "ReplicaGroup list \<Rightarrow> ReplicaGroup list \<Rightarrow> number" where
  "reference_of tgs hgs =
     (case zip tgs hgs of
        [] \<Rightarrow> Finite 0
      | (tg, hg) # _ \<Rightarrow> num_sub (mean (ReplicaGroup.ctValues tg)) (mean (ReplicaGroup.ctValues hg)))"

section \<open>Scenarios\<close>

text \<open>
  The inputs of the scenarios: a table with the columns \<open>Name\<close> and \<open>Cp\<close>, and
  measurements numbered by row.
\<close>

definition table_row :: "string \<Rightarrow> string \<Rightarrow> RawDataRow" where
  "table_row gene cp = [''Name'' \<mapsto> gene, ''Cp'' \<mapsto> cp]"

definition measured :: "real list \<Rightarrow> nat \<Rightarrow> CtMeasurement list" where
  "measured vs first = map (\<lambda>(v, i). \<lparr> val = Finite v, rowIndex = i \<rparr>)
                          (zip vs [first ..< first + length vs])"

definition scenarioA_data :: ParsedTsvData where
  "scenarioA_data =
     \<lparr> title = ''Scenario A'', headers = [''Name'', ''Cp''],
       ParsedTsvData.rows =
         map (table_row ''GAPDH'') [''20'', ''20'', ''20'', ''22'', ''22'', ''22''] @
         map (table_row ''TP53'') [''25'', ''25'', ''25'', ''25'', ''25'', ''25''] \<rparr>"

definition scenarioA_config :: ProcessingConfig where
  "scenarioA_config =
     \<lparr> replicaCount = 3, housekeeper = ''GAPDH'', samples = [''S1'', ''S2''],
       controls = [''S1''] \<rparr>"

definition scenarioA_GAPDH :: GeneData where
  "scenarioA_GAPDH =
     \<lparr> name = ''GAPDH'',
       measurements = measured [20, 20, 20, 22, 22, 22] 0,
       replicaGroups = groupIntoReplicas (measured [20, 20, 20, 22, 22, 22] 0) 3 [''S1'', ''S2''] \<rparr>"

definition scenarioA_TP53 :: GeneData where
  "scenarioA_TP53 =
     \<lparr> name = ''TP53'',
       measurements = measured [25, 25, 25, 25, 25, 25] 6,
       replicaGroups = groupIntoReplicas (measured [25, 25, 25, 25, 25, 25] 6) 3 [''S1'', ''S2''] \<rparr>"

text \<open>A table whose CT field for the target gene is the text \<open>Infinity\<close>.\<close>

definition infinity_data :: ParsedTsvData where
  "infinity_data =
     \<lparr> title = ''Infinite CT'', headers = [''Name'', ''Cp''],
       ParsedTsvData.rows = [table_row ''GAPDH'' ''20'', table_row ''TP53'' ''Infinity''] \<rparr>"

definition infinity_config :: ProcessingConfig where
  "infinity_config =
     \<lparr> replicaCount = 1, housekeeper = ''GAPDH'', samples = [''S1''], controls = [''S1''] \<rparr>"

definition infinity_GAPDH :: GeneData where
  "infinity_GAPDH =
     \<lparr> name = ''GAPDH'', measurements = [\<lparr> val = Finite 20, rowIndex = 0 \<rparr>],
       replicaGroups = [\<lparr> ReplicaGroup.sampleName = ''S1'', ReplicaGroup.sampleNumber = 1,
                          ReplicaGroup.ctValues = [Finite 20] \<rparr>] \<rparr>"

definition infinity_TP53 :: GeneData where
  "infinity_TP53 =
     \<lparr> name = ''TP53'', measurements = [\<lparr> val = PosInfinity, rowIndex = 1 \<rparr>],
       replicaGroups = [\<lparr> ReplicaGroup.sampleName = ''S1'', ReplicaGroup.sampleNumber = 1,
                          ReplicaGroup.ctValues = [PosInfinity] \<rparr>] \<rparr>"

text \<open>A table where the target gene has fewer rows than one group needs.\<close>

definition ragged_data :: ParsedTsvData where
  "ragged_data =
     \<lparr> title = ''Ragged'', headers = [''Name'', ''Cp''],
       ParsedTsvData.rows =
         map (table_row ''GAPDH'') [''20'', ''20'', ''20''] @
         map (table_row ''TP53'') [''25'', ''25''] \<rparr>"

definition ragged_config :: ProcessingConfig where
  "ragged_config =
     \<lparr> replicaCount = 3, housekeeper = ''GAPDH'', samples = [''S1''], controls = [''S1''] \<rparr>"

definition ragged_GAPDH :: GeneData where
  "ragged_GAPDH =
     \<lparr> name = ''GAPDH'', measurements = measured [20, 20, 20] 0,
       replicaGroups = [\<lparr> ReplicaGroup.sampleName = ''S1'', ReplicaGroup.sampleNumber = 1,
                          ReplicaGroup.ctValues = [Finite 20, Finite 20, Finite 20] \<rparr>] \<rparr>"

definition ragged_TP53 :: GeneData where
  "ragged_TP53 =
     \<lparr> name = ''TP53'', measurements = measured [25, 25] 3, replicaGroups = [] \<rparr>"

text \<open>A table with a marker row and a row whose CT field is not a number.\<close>

definition marker_data :: ParsedTsvData where
  "marker_data =
     \<lparr> title = ''Marker rows'', headers = [''Name'', ''Cp''],
       ParsedTsvData.rows =
         [table_row ''GAPDH'' ''20'', table_row ''Sample 3'' ''21'',
          table_row ''TP53'' ''n/a'', table_row ''TP53'' ''25''] \<rparr>"

definition marker_GAPDH :: GeneData where
  "marker_GAPDH =
     \<lparr> name = ''GAPDH'', measurements = [\<lparr> val = Finite 20, rowIndex = 0 \<rparr>],
       replicaGroups = [] \<rparr>"

definition marker_TP53 :: GeneData where
  "marker_TP53 =
     \<lparr> name = ''TP53'', measurements = [\<lparr> val = Finite 25, rowIndex = 3 \<rparr>],
       replicaGroups = [] \<rparr>"

text \<open>What \<open>extractGeneData\<close> returns for the table with the CT text \<open>Infinity\<close>.\<close>

definition infinity_extracted :: "(string, GeneData) js_map" where
  "infinity_extracted =
     [(''GAPDH'', \<lparr> name = ''GAPDH'', measurements = [\<lparr> val = Finite 20, rowIndex = 0 \<rparr>],
                    replicaGroups = [] \<rparr>),
      (''TP53'', \<lparr> name = ''TP53'', measurements = [\<lparr> val = PosInfinity, rowIndex = 1 \<rparr>],
                   replicaGroups = [] \<rparr>)]"


definition control_row :: "string \<Rightarrow> number \<Rightarrow> FoldChangeTableRow" where
  "control_row c v =
     \<lparr> FoldChangeTableRow.controlName = c, controlFoldChange = v,
       FoldChangeTableRow.observedName = [], observedFoldChange = Finite 0 \<rparr>"





section \<open>The specification's words\<close>



definition round4 :: "real \<Rightarrow> real" where
  "round4 a = of_int \<lfloor>a * 10 ^ 4 + 1 / 2\<rfloor> / 10 ^ 4"



text \<open>
  What every recorded measurement satisfies: it stands for the row at its index, which
  is not a marker row, has the gene's name, and has a CT field that parses to the
  measurement's value, not \<open>NaN\<close>.
\<close>

definition recorded_from ::
  "RawDataRow list \<Rightarrow> string \<Rightarrow> string \<Rightarrow> CtMeasurement \<Rightarrow> bool" where
  "recorded_from rs ctColumn gene m =
     (rowIndex m < length rs \<and>
      \<not> shouldIgnoreRow (rs ! rowIndex m) \<and>
      (rs ! rowIndex m) ''Name'' = Some gene \<and>
      val m = parseFloat (ct_field ctColumn (rs ! rowIndex m)) \<and>
      \<not> isNaN (val m))"

definition extracted_ok ::
  "RawDataRow list \<Rightarrow> string \<Rightarrow> (string, GeneData) js_map \<Rightarrow> bool" where
  "extracted_ok rs ctColumn geneMap =
     (\<forall>(gene, geneData) \<in> set geneMap.
        name geneData = gene \<and> gene \<noteq> [] \<and> \<not> sample_pattern (trim gene) \<and>
        (\<forall>m \<in> set (measurements geneData). recorded_from rs ctColumn gene m))"

text \<open>
  A row the callback records for a gene, and a gene map holding a measurement for a
  gene.
\<close>

definition recordable :: "string \<Rightarrow> RawDataRow \<Rightarrow> string \<Rightarrow> bool" where
  "recordable ctColumn row gene =
     (\<not> shouldIgnoreRow row \<and> row ''Name'' = Some gene \<and> gene \<noteq> [] \<and>
      \<not> isNaN (parseFloat (ct_field ctColumn row)))"

definition holds_measurement :: "(string, GeneData) js_map \<Rightarrow> string \<Rightarrow> CtMeasurement \<Rightarrow> bool" where
  "holds_measurement geneMap gene m =
     (case map_of geneMap gene of
        None \<Rightarrow> False
      | Some geneData \<Rightarrow> m \<in> set (measurements geneData))"

section \<open>Properties\<close>

subsection \<open>Rounding\<close>

text \<open>
  \<open>ilog2\<close> is the binary exponent of a positive real, so \<open>fl\<close> is determined by any
  exponent that brackets its argument; from \<open>2\<^sup>1\<^sup>0\<^sup>2\<^sup>4\<close> on it overflows, and up to
  \<open>2\<^sup>-\<^sup>1\<^sup>0\<^sup>7\<^sup>5\<close> it gives 0.
\<close>

lemma pow2_powr: "pow2 k = 2 powr real_of_int k"
proof (cases "0 \<le> k")
  case True
  then have "2 powr real_of_int k = 2 powr real (nat k)" by simp
  also have "\<dots> = 2 ^ nat k" by (simp add: powr_realpow)
  finally show ?thesis using True by (simp add: pow2_def)
next
  case False
  then have "2 powr real_of_int k = 2 powr (- real (nat (- k)))" by simp
  also have "\<dots> = 1 / 2 ^ nat (- k)"
    by (simp add: powr_minus powr_realpow inverse_eq_divide)
  finally show ?thesis using False by (simp add: pow2_def)
qed

lemma pow2_pos: "0 < pow2 k"
  by (simp add: pow2_powr)

lemma pow2_mono: "j \<le> k \<Longrightarrow> pow2 j \<le> pow2 k"
  by (simp add: pow2_powr)

lemma ilog2_bounds:
  assumes "0 < a"
  shows "pow2 (ilog2 a) \<le> a \<and> a < pow2 (ilog2 a + 1)"
proof (cases "1 \<le> a")
  case True
  let ?n = "\<lfloor>a\<rfloor>"
  have n: "0 < ?n" using True by linarith
  from bitlen_bounds [OF n]
  have lo: "2 ^ nat (bitlen ?n - 1) \<le> ?n" and hi: "?n < 2 ^ nat (bitlen ?n)" by simp_all
  have b: "1 \<le> bitlen ?n" using n bitlen_eq_zero_iff [of ?n] bitlen_nonneg [of ?n]
    by (smt (verit))
  have "real_of_int (2 ^ nat (bitlen ?n - 1)) \<le> real_of_int ?n"
    using lo by (simp only: of_int_le_iff)
  then have "2 ^ nat (bitlen ?n - 1) \<le> real_of_int ?n" by simp
  then have "2 ^ nat (bitlen ?n - 1) \<le> a" by linarith
  then have 1: "pow2 (bitlen ?n - 1) \<le> a" using b by (simp add: pow2_def)
  have "?n + 1 \<le> 2 ^ nat (bitlen ?n)" using hi by simp
  then have "real_of_int (?n + 1) \<le> real_of_int (2 ^ nat (bitlen ?n))"
    by (simp only: of_int_le_iff)
  then have "real_of_int ?n + 1 \<le> 2 ^ nat (bitlen ?n)" by simp
  then have "a < 2 ^ nat (bitlen ?n)" by linarith
  then have 2: "a < pow2 (bitlen ?n - 1 + 1)" using b by (simp add: pow2_def)
  show ?thesis using True 1 2 by (simp add: ilog2_def)
next
  case False
  with assms have a: "0 < a" "a < 1" by simp_all
  let ?d = "\<lceil>1 / a\<rceil> - 1"
  have big: "1 < 1 / a" using a by simp
  then have d: "0 < ?d" by linarith
  from bitlen_bounds [OF d]
  have lo: "2 ^ nat (bitlen ?d - 1) \<le> ?d" and hi: "?d < 2 ^ nat (bitlen ?d)" by simp_all
  have b: "1 \<le> bitlen ?d" using d bitlen_eq_zero_iff [of ?d] bitlen_nonneg [of ?d]
    by (smt (verit))
  have "?d + 1 \<le> 2 ^ nat (bitlen ?d)" using hi by simp
  then have "real_of_int (?d + 1) \<le> real_of_int (2 ^ nat (bitlen ?d))"
    by (simp only: of_int_le_iff)
  then have "real_of_int (?d + 1) \<le> 2 ^ nat (bitlen ?d)" by simp
  moreover have "1 / a \<le> real_of_int (?d + 1)" by simp
  ultimately have "1 / a \<le> 2 ^ nat (bitlen ?d)" by linarith
  then have "1 \<le> a * 2 ^ nat (bitlen ?d)" using a by (simp add: field_simps)
  then have 1: "pow2 (- bitlen ?d) \<le> a" using b by (simp add: pow2_def field_simps)
  have "real_of_int (2 ^ nat (bitlen ?d - 1)) \<le> real_of_int ?d"
    using lo by (simp only: of_int_le_iff)
  then have "2 ^ nat (bitlen ?d - 1) \<le> real_of_int ?d" by simp
  moreover have "real_of_int ?d < 1 / a" by linarith
  ultimately have "2 ^ nat (bitlen ?d - 1) < 1 / a" by linarith
  then have lt: "a < 1 / 2 ^ nat (bitlen ?d - 1)" using a by (simp add: field_simps)
  have p: "pow2 (- bitlen ?d + 1) = 1 / 2 ^ nat (bitlen ?d - 1)"
  proof (cases "bitlen ?d = 1")
    case True
    then show ?thesis by (simp add: pow2_def)
  next
    case False
    with b have "1 < bitlen ?d" by simp
    then have "nat (- (- bitlen ?d + 1)) = nat (bitlen ?d - 1)" by simp
    with \<open>1 < bitlen ?d\<close> show ?thesis by (simp add: pow2_def)
  qed
  have 2: "a < pow2 (- bitlen ?d + 1)" using lt by (simp only: p)
  show ?thesis using False 1 2 by (simp add: ilog2_def)
qed

lemma ilog2_eqI:
  assumes "pow2 e \<le> a" and "a < pow2 (e + 1)"
  shows "ilog2 a = e"
proof -
  have a: "0 < a" using assms(1) pow2_pos [of e] by linarith
  from ilog2_bounds [OF a]
  have lo: "pow2 (ilog2 a) \<le> a" and hi: "a < pow2 (ilog2 a + 1)" by simp_all
  have "\<not> ilog2 a < e"
  proof
    assume "ilog2 a < e"
    then have "pow2 (ilog2 a + 1) \<le> pow2 e" by (intro pow2_mono) simp
    with hi assms(1) show False by linarith
  qed
  moreover have "\<not> e < ilog2 a"
  proof
    assume "e < ilog2 a"
    then have "pow2 (e + 1) \<le> pow2 (ilog2 a)" by (intro pow2_mono) simp
    with lo assms(2) show False by linarith
  qed
  ultimately show ?thesis by simp
qed

lemma fl_with_exponent:
  assumes "pow2 e \<le> \<bar>x\<bar>" and "\<bar>x\<bar> < pow2 (e + 1)"
  shows "fl x =
           (let e' = max e (- 1022);
                ulp = pow2 (e' - 52);
                m = rne (\<bar>x\<bar> / ulp)
            in if 1024 \<le> e' \<or> (e' = 1023 \<and> m = 2 ^ 53) then signed_infinity (0 < x)
               else Finite (if 0 < x then of_int m * ulp else - (of_int m * ulp)))"
proof -
  have "x \<noteq> 0" using assms(1) pow2_pos [of e] by auto
  moreover have "ilog2 \<bar>x\<bar> = e" using assms by (rule ilog2_eqI)
  ultimately show ?thesis by (simp add: fl_def)
qed

lemma fl_zero: "fl 0 = Finite 0"
  by (simp add: fl_def)

lemmas fl_eval = fl_def ilog2_def rne_def pow2_def compute_bitlen Let_def signed_infinity_def

lemma fl_not_NaN: "fl x \<noteq> NaN"
  by (simp add: fl_def Let_def signed_infinity_def)

lemma fl_small_values:
  "fl 1 = Finite 1" "fl 3 = Finite 3" "fl 4 = Finite 4" "fl 5 = Finite 5"
  "fl (- 2) = Finite (- 2)" "fl 20 = Finite 20" "fl 22 = Finite 22" "fl 25 = Finite 25"
  "fl 40 = Finite 40" "fl 44 = Finite 44" "fl 50 = Finite 50" "fl 60 = Finite 60"
  "fl 66 = Finite 66" "fl 75 = Finite 75" "fl 10000 = Finite 10000"
  by (simp_all add: fl_eval)

lemma fl_overflow:
  assumes "pow2 1024 \<le> \<bar>x\<bar>"
  shows "fl x = signed_infinity (0 < x)"
proof -
  have pos: "0 < \<bar>x\<bar>" using assms pow2_pos [of 1024] by linarith
  from ilog2_bounds [OF pos] have "\<bar>x\<bar> < pow2 (ilog2 \<bar>x\<bar> + 1)" by simp
  with assms have "pow2 1024 < pow2 (ilog2 \<bar>x\<bar> + 1)" by linarith
  then have "\<not> ilog2 \<bar>x\<bar> + 1 \<le> 1024" using pow2_mono [of "ilog2 \<bar>x\<bar> + 1" 1024] by linarith
  then have e: "1024 \<le> max (ilog2 \<bar>x\<bar>) (- 1022)" by simp
  have "x \<noteq> 0" using pos by simp
  then show ?thesis using e unfolding fl_def Let_def
    by (simp only: if_False if_True simp_thms)
qed

lemma fl_underflow:
  assumes "\<bar>x\<bar> \<le> pow2 (- 1075)"
  shows "fl x = Finite 0"
proof (cases "x = 0")
  case True
  then show ?thesis by (simp add: fl_def)
next
  case False
  then have pos: "0 < \<bar>x\<bar>" by simp
  from ilog2_bounds [OF pos] have "pow2 (ilog2 \<bar>x\<bar>) \<le> \<bar>x\<bar>" by simp
  with assms have "pow2 (ilog2 \<bar>x\<bar>) \<le> pow2 (- 1075)" by linarith
  then have "\<not> - 1075 < ilog2 \<bar>x\<bar>"
    by (simp add: pow2_powr)
  then have e: "max (ilog2 \<bar>x\<bar>) (- 1022) = - 1022" by simp
  have u: "pow2 (- 1075) = pow2 (- 1074) / 2" by (simp add: pow2_def)
  let ?q = "\<bar>x\<bar> / pow2 (- 1074)"
  have q: "0 < ?q" "?q \<le> 1 / 2"
    using pos assms pow2_pos [of "- 1074"] by (simp_all add: u field_simps)
  then have fl0: "\<lfloor>?q\<rfloor> = 0" by linarith
  have "rne ?q = 0" using q by (simp add: rne_def fl0 Let_def)
  then have m0: "rne (\<bar>x\<bar> / pow2 (- 1022 - 52)) = 0" by simp
  show ?thesis using False unfolding fl_def Let_def e m0
    by (simp only: if_False) simp
qed

lemma fl_overflow_examples:
  "fl (2 ^ 1023 + 2 ^ 1023) = PosInfinity"
  "fl (2 ^ 1020 * 10000) = PosInfinity"
  "fl (10 ^ 400) = PosInfinity"
  "fl (1 / 10 ^ 400) = Finite 0"
     apply (subst fl_overflow; simp add: pow2_def signed_infinity_def)
    apply (subst fl_overflow; simp add: pow2_def signed_infinity_def)
   apply (subst fl_overflow; simp add: pow2_def signed_infinity_def)
  apply (subst fl_underflow; simp add: pow2_def)
  done

text \<open>
  Overflow and underflow in \<open>parseFloat\<close> and \<open>Math.pow\<close>, and the binary64 value of the
  text \<open>0.1\<close>.
\<close>

lemmas parse_eval = parseFloat_def parse_unsigned_def parse_exponent_def scale10_def
  digits_val_def digit_val_def is_digit_def is_ws_def Let_def

lemma parseFloat_rounds:
  "parseFloat ''1e400'' = PosInfinity"
  "parseFloat ''1.0e-400'' = Finite 0"
  "parseFloat ''0.1'' = Finite (3602879701896397 / 2 ^ 55)"
proof -
  have "parseFloat ''1e400'' = fl (10 ^ 400)"
    by (simp add: parse_eval del: power_numeral)
  then show "parseFloat ''1e400'' = PosInfinity"
    by (simp only: fl_overflow_examples)
  have "parseFloat ''1.0e-400'' = fl (1 / 10 ^ 400)"
    by (simp add: parse_eval)
  then show "parseFloat ''1.0e-400'' = Finite 0"
    by (simp only: fl_overflow_examples)
  have "parseFloat ''0.1'' = fl (1 / 10)"
    by (simp add: parse_eval)
  then show "parseFloat ''0.1'' = Finite (3602879701896397 / 2 ^ 55)"
    by (simp add: fl_eval)
qed

lemma Math_pow_rounds:
  "Math_pow (Finite 2) (Finite 1024) = PosInfinity"
  "Math_pow (Finite 2) (Finite (- 1100)) = Finite 0"
proof -
  have a: "(2 :: real) powr 1024 = 2 ^ 1024"
    using powr_realpow [of "2 :: real" 1024] by simp
  have "fl (2 ^ 1024) = signed_infinity (0 < (2 :: real) ^ 1024)"
    by (rule fl_overflow) (simp add: pow2_def)
  then show "Math_pow (Finite 2) (Finite 1024) = PosInfinity"
    by (simp add: real_pow_def a signed_infinity_def del: power_numeral)
  have b: "(2 :: real) powr (- 1100) = 1 / 2 ^ 1100"
    using powr_realpow [of "2 :: real" 1100] by (simp add: powr_minus field_simps)
  have "fl (1 / 2 ^ 1100) = Finite 0"
    by (rule fl_underflow) (simp add: pow2_def)
  then show "Math_pow (Finite 2) (Finite (- 1100)) = Finite 0"
    by (simp add: real_pow_def b del: power_numeral)
qed

subsection \<open>Replica groups\<close>

lemma slice_take_drop:
  "0 \<le> a \<Longrightarrow> a \<le> b \<Longrightarrow> b \<le> int (length xs) \<Longrightarrow>
     slice xs a b = take (nat (b - a)) (drop (nat a) xs)"
  by (simp add: slice_def Let_def)

lemma groupIntoReplicas_loop_eq:
  "1 \<le> rc \<Longrightarrow>
   groupIntoReplicas_loop ms rc names i groups =
     groups @ map (spec_group ms (nat rc) names) [i ..< min (length names) (length ms div nat rc)]"
proof (induction ms rc names i groups rule: groupIntoReplicas_loop.induct)
  case (1 ms rc names i groups)
  let ?n = "nat rc"
  let ?b = "min (length names) (length ms div ?n)"
  have n: "0 < ?n" "rc = int ?n" using "1.prems" by auto
  show ?case
  proof (cases "i < length names")
    case False
    then show ?thesis by (simp add: groupIntoReplicas_loop.simps)
  next
    case True
    show ?thesis
    proof (cases "int i * rc + rc > int (length ms)")
      case over: True
      have "(i + 1) * ?n > length ms"
      proof -
        have "int ((i + 1) * ?n) = int i * rc + rc" using n by (simp add: algebra_simps)
        with over show ?thesis by linarith
      qed
      then have "\<not> i + 1 \<le> length ms div ?n"
        using n(1) by (simp add: less_eq_div_iff_mult_less_eq)
      then have "[i ..< ?b] = []" by simp
      with True over show ?thesis
        by (subst groupIntoReplicas_loop.simps) (simp add: Let_def)
    next
      case fits: False
      have le: "(i + 1) * ?n \<le> length ms"
      proof -
        have "int ((i + 1) * ?n) = int i * rc + rc" using n by (simp add: algebra_simps)
        with fits show ?thesis by linarith
      qed
      then have "i + 1 \<le> length ms div ?n"
        using n(1) by (simp add: less_eq_div_iff_mult_less_eq)
      then have ib: "i < ?b" using True by simp
      have sl: "slice ms (int i * rc) (int i * rc + rc) = take ?n (drop (i * ?n) ms)"
      proof -
        have "slice ms (int i * rc) (int i * rc + rc)
              = take (nat (int i * rc + rc - int i * rc)) (drop (nat (int i * rc)) ms)"
          using fits "1.prems" by (intro slice_take_drop) auto
        moreover have "nat (int i * rc) = i * ?n" using n by (simp add: nat_mult_distrib)
        ultimately show ?thesis by simp
      qed
      have "groupIntoReplicas_loop ms rc names i groups =
            groupIntoReplicas_loop ms rc names (Suc i) (groups @ [spec_group ms ?n names i])"
        using True fits sl
        by (subst groupIntoReplicas_loop.simps) (simp add: Let_def spec_group_def)
      also have "\<dots> = (groups @ [spec_group ms ?n names i]) @ map (spec_group ms ?n names) [Suc i ..< ?b]"
        using "1.IH"[OF True refl refl _ "1.prems"] fits sl by (simp add: spec_group_def)
      also have "\<dots> = groups @ map (spec_group ms ?n names) [i ..< ?b]"
        using ib by (simp add: upt_conv_Cons)
      finally show ?thesis .
    qed
  qed
qed

lemma groupIntoReplicas_eq:
  "1 \<le> rc \<Longrightarrow>
   groupIntoReplicas ms rc names =
     map (spec_group ms (nat rc) names) [0 ..< min (length names) (length ms div nat rc)]"
  by (simp add: groupIntoReplicas_def groupIntoReplicas_loop_eq)

text \<open>
  Claim C2. For \<open>replicaCount \<ge> 1\<close>, \<open>groupIntoReplicas\<close> returns, for the sample
  indices \<open>i\<close> below both the number of sample names and the number of whole groups the
  measurements hold, the group of the measurements \<open>[i * replicaCount, i * replicaCount +
  replicaCount)\<close> with sample number \<open>i + 1\<close> and the caller's name; a sample whose end
  index exceeds the number of measurements is omitted with every later one.
\<close>

theorem groupIntoReplicas_contiguous_slices:
  assumes "1 \<le> rc"
  shows "groupIntoReplicas ms rc sampleNames =
           map (spec_group ms (nat rc) sampleNames)
             [0 ..< min (length sampleNames) (length ms div nat rc)]
         \<and> (\<forall>i < length sampleNames.
               int (length ms) < int i * rc + rc \<longrightarrow>
               length (groupIntoReplicas ms rc sampleNames) \<le> i)"
proof (intro conjI allI impI)
  show eq: "groupIntoReplicas ms rc sampleNames =
           map (spec_group ms (nat rc) sampleNames)
             [0 ..< min (length sampleNames) (length ms div nat rc)]"
    using assms by (rule groupIntoReplicas_eq)
  fix i
  assume i: "i < length sampleNames"
    and over: "int (length ms) < int i * rc + rc"
  let ?n = "nat rc"
  have n: "0 < ?n" "rc = int ?n" using assms by auto
  have "int ((i + 1) * ?n) = int i * rc + rc"
    using n by (simp add: algebra_simps)
  with over have "length ms < (i + 1) * ?n" by linarith
  then have "\<not> i + 1 \<le> length ms div ?n"
    using n(1) by (simp add: less_eq_div_iff_mult_less_eq)
  then have "length ms div ?n \<le> i" by simp
  then show "length (groupIntoReplicas ms rc sampleNames) \<le> i"
    by (simp add: eq)
qed

theorem groupIntoReplicas_contiguous_slices_witness:
  "(1::int) \<le> 3 \<and>
   groupIntoReplicas
     [\<lparr>val = Finite 21, rowIndex = 0\<rparr>, \<lparr>val = Finite 22, rowIndex = 1\<rparr>,
      \<lparr>val = Finite 23, rowIndex = 2\<rparr>, \<lparr>val = Finite 24, rowIndex = 3\<rparr>,
      \<lparr>val = Finite 25, rowIndex = 4\<rparr>] 3 [''S1'', ''S2'']
   = [\<lparr>ReplicaGroup.sampleName = ''S1'', ReplicaGroup.sampleNumber = 1, ReplicaGroup.ctValues = [Finite 21, Finite 22, Finite 23]\<rparr>]"
  using groupIntoReplicas_contiguous_slices [of 3
     "[\<lparr>val = Finite 21, rowIndex = 0\<rparr>, \<lparr>val = Finite 22, rowIndex = 1\<rparr>,
      \<lparr>val = Finite 23, rowIndex = 2\<rparr>, \<lparr>val = Finite 24, rowIndex = 3\<rparr>,
      \<lparr>val = Finite 25, rowIndex = 4\<rparr>]" "[''S1'', ''S2'']"]
  by (simp add: spec_group_def)

text \<open>
  The boundary case for any five measurements and any two sample names: one group, of
  the first three measurements.
\<close>

lemma groupIntoReplicas_five_three_two:
  assumes "length ms = 5" and "length sampleNames = 2"
  shows "groupIntoReplicas ms 3 sampleNames =
           [\<lparr>ReplicaGroup.sampleName = sampleNames ! 0, ReplicaGroup.sampleNumber = 1, ReplicaGroup.ctValues = map val (take 3 ms)\<rparr>]"
  using assms by (simp add: groupIntoReplicas_eq spec_group_def)

text \<open>
  Claim C10. For \<open>replicaCount \<ge> 1\<close>, every group returned by \<open>groupIntoReplicas\<close>
  has exactly \<open>replicaCount\<close> CT values.
\<close>

theorem groupIntoReplicas_full_groups:
  assumes "1 \<le> rc"
  shows "\<forall>g \<in> set (groupIntoReplicas ms rc sampleNames).
           length (ReplicaGroup.ctValues g) = nat rc"
proof
  fix g
  assume "g \<in> set (groupIntoReplicas ms rc sampleNames)"
  let ?n = "nat rc"
  have n: "0 < ?n" using assms by auto
  from \<open>g \<in> _\<close> obtain i where i: "i < length ms div ?n"
    and g: "g = spec_group ms ?n sampleNames i"
    using assms by (auto simp: groupIntoReplicas_eq)
  from i have "i + 1 \<le> length ms div ?n" by simp
  then have "(i + 1) * ?n \<le> length ms"
    using n by (simp add: less_eq_div_iff_mult_less_eq)
  then have "?n \<le> length ms - i * ?n" by simp
  then show "length (ReplicaGroup.ctValues g) = ?n" by (simp add: g spec_group_def)
qed

theorem groupIntoReplicas_full_groups_witness:
  "(1::int) \<le> 2 \<and>
   groupIntoReplicas
        [\<lparr>val = Finite 21, rowIndex = 0\<rparr>, \<lparr>val = Finite 22, rowIndex = 1\<rparr>,
         \<lparr>val = Finite 23, rowIndex = 2\<rparr>] 2 [''S1'', ''S2'']
      = [\<lparr>ReplicaGroup.sampleName = ''S1'', ReplicaGroup.sampleNumber = 1,
          ReplicaGroup.ctValues = [Finite 21, Finite 22]\<rparr>]
   \<and> length (ReplicaGroup.ctValues
          (hd (groupIntoReplicas
             [\<lparr>val = Finite 21, rowIndex = 0\<rparr>, \<lparr>val = Finite 22, rowIndex = 1\<rparr>,
              \<lparr>val = Finite 23, rowIndex = 2\<rparr>] 2 [''S1'', ''S2'']))) = nat 2"
proof -
  let ?gs = "groupIntoReplicas
        [\<lparr>val = Finite 21, rowIndex = 0\<rparr>, \<lparr>val = Finite 22, rowIndex = 1\<rparr>,
         \<lparr>val = Finite 23, rowIndex = 2\<rparr>] 2 [''S1'', ''S2'']"
  have one: "(1::int) \<le> 2" by simp
  have ev: "?gs = [\<lparr>ReplicaGroup.sampleName = ''S1'', ReplicaGroup.sampleNumber = 1,
                    ReplicaGroup.ctValues = [Finite 21, Finite 22]\<rparr>]"
    by (simp add: groupIntoReplicas_eq spec_group_def)
  have mem: "hd ?gs \<in> set ?gs" unfolding ev by simp
  have len: "length (ReplicaGroup.ctValues (hd ?gs)) = nat 2"
    by (rule bspec [OF groupIntoReplicas_full_groups [OF one] mem])
  show ?thesis by (rule conjI [OF one conjI [OF ev len]])
qed

subsection \<open>Processing rows\<close>

text \<open>
  Both passes pair the groups of the two genes by position: the rows are those of
  \<^const>\<open>zip\<close> of the two group lists, each summary row followed by its replica rows.
\<close>

lemma foldl_append_concat: "foldl (\<lambda>acc i. acc @ g i) a xs = a @ concat (map g xs)"
  by (induction xs arbitrary: a) auto

lemma zip_as_map_upt:
  "zip xs ys = map (\<lambda>i. (xs ! i, ys ! i)) [0 ..< min (length xs) (length ys)]"
  by (rule nth_equalityI) auto

lemma paired_indices_concat:
  "concat (map (\<lambda>i. case (at_index xs i, at_index ys i) of
                        (Some x, Some y) \<Rightarrow> g x y | _ \<Rightarrow> [])
            [0 ..< length xs])
   = concat (map (\<lambda>(x, y). g x y) (zip xs ys))"
proof -
  let ?G = "\<lambda>i. case (at_index xs i, at_index ys i) of (Some x, Some y) \<Rightarrow> g x y | _ \<Rightarrow> []"
  let ?m = "min (length xs) (length ys)"
  have split: "[0 ..< length xs] = [0 ..< ?m] @ [?m ..< length xs]"
    by (metis le_add_diff_inverse min.cobounded1 upt_add_eq_append zero_le)
  have tail: "concat (map ?G [?m ..< length xs]) = []"
    by (auto simp: at_index_def)
  have head: "map ?G [0 ..< ?m] = map (\<lambda>i. g (xs ! i) (ys ! i)) [0 ..< ?m]"
    by (rule map_cong) (auto simp: at_index_def)
  have "concat (map ?G [0 ..< length xs]) = concat (map ?G [0 ..< ?m])"
    by (subst split) (simp only: map_append concat_append tail append_Nil2)
  also have "\<dots> = concat (map (\<lambda>i. g (xs ! i) (ys ! i)) [0 ..< ?m])"
    by (simp only: head)
  also have "\<dots> = concat (map (\<lambda>(x, y). g x y) (zip xs ys))"
    by (simp add: zip_as_map_upt comp_def)
  finally show ?thesis .
qed

lemma deltaCts_pass_zip:
  "deltaCts_pass tgs hgs =
     map (\<lambda>(tg, hg). num_sub (mean (ReplicaGroup.ctValues tg)) (mean (ReplicaGroup.ctValues hg)))
       (zip tgs hgs)"
proof -
  have f: "(\<lambda>deltaCts i.
        case (at_index tgs i, at_index hgs i) of
          (Some targetGroup, Some hkGroup) \<Rightarrow>
            (let targetMean = mean (ReplicaGroup.ctValues targetGroup);
                 hkMean = mean (ReplicaGroup.ctValues hkGroup)
             in deltaCts @ [num_sub targetMean hkMean])
        | _ \<Rightarrow> deltaCts)
     = (\<lambda>acc i. acc @ (case (at_index tgs i, at_index hgs i) of
          (Some tg, Some hg) \<Rightarrow>
             [num_sub (mean (ReplicaGroup.ctValues tg)) (mean (ReplicaGroup.ctValues hg))]
        | _ \<Rightarrow> []))"
    by (intro ext) (simp split: option.splits)
  show ?thesis
    unfolding deltaCts_pass_def f foldl_append_concat append_Nil paired_indices_concat
    by (simp add: split_def)
qed

lemma calculateProcessingRows_zip:
  "calculateProcessingRows t h cfg =
     concat (map (\<lambda>(tg, hg).
                summary_row tg hg (reference_of (replicaGroups t) (replicaGroups h)) (replicaCount cfg)
                # replica_rows tg hg (replicaCount cfg))
             (zip (replicaGroups t) (replicaGroups h)))"
proof -
  let ?tgs = "replicaGroups t" and ?hgs = "replicaGroups h"
  let ?d = "deltaCts_pass ?tgs ?hgs"
  have ref: "(if length ?d > 0 then ?d ! 0 else Finite 0) = reference_of ?tgs ?hgs"
    by (cases "zip ?tgs ?hgs") (auto simp: deltaCts_pass_zip reference_of_def)
  have f: "\<And>ref rc. (\<lambda>acc i.
           case (at_index ?tgs i, at_index ?hgs i) of
             (Some targetGroup, Some hkGroup) \<Rightarrow>
               acc @ [summary_row targetGroup hkGroup ref rc]
                   @ replica_rows targetGroup hkGroup rc
           | _ \<Rightarrow> acc)
     = (\<lambda>acc i. acc @ (case (at_index ?tgs i, at_index ?hgs i) of
             (Some tg, Some hg) \<Rightarrow> summary_row tg hg ref rc # replica_rows tg hg rc
           | _ \<Rightarrow> []))"
    by (intro ext) (simp split: option.splits)
  show ?thesis
    unfolding calculateProcessingRows_def Let_def ref f foldl_append_concat append_Nil
      paired_indices_concat
    by (rule refl)
qed

lemma summary_row_fields:
  "isReplicaRow (summary_row tg hg ref rc) = False"
  "ProcessingTableRow.sampleNumber (summary_row tg hg ref rc) = ReplicaGroup.sampleNumber tg"
  "ProcessingTableRow.sampleName (summary_row tg hg ref rc) = ReplicaGroup.sampleName tg"
  "deltaCt (summary_row tg hg ref rc)
     = num_sub (mean (ReplicaGroup.ctValues tg)) (mean (ReplicaGroup.ctValues hg))"
  "deltaDeltaCt (summary_row tg hg ref rc)
     = num_sub (num_sub (mean (ReplicaGroup.ctValues tg)) (mean (ReplicaGroup.ctValues hg))) ref"
  "ProcessingTableRow.foldChange (summary_row tg hg ref rc)
     = foldChange (num_sub (num_sub (mean (ReplicaGroup.ctValues tg))
                                    (mean (ReplicaGroup.ctValues hg))) ref)"
  by (simp_all add: summary_row_def Let_def)

lemma replica_rows_concat:
  "replica_rows tg hg rc =
     concat (map (\<lambda>r. if r < length (ReplicaGroup.ctValues tg) then [replica_row tg hg r] else [])
               [0 ..< nat rc])"
proof -
  have f: "(\<lambda>acc r. if r < length (ReplicaGroup.ctValues tg)
                     then acc @ [replica_row tg hg r] else acc)
           = (\<lambda>acc r. acc @ (if r < length (ReplicaGroup.ctValues tg)
                               then [replica_row tg hg r] else []))"
    by (intro ext) simp
  show ?thesis unfolding replica_rows_def f foldl_append_concat by simp
qed

lemma replica_rows_are_replicas: "r \<in> set (replica_rows tg hg rc) \<Longrightarrow> isReplicaRow r"
  by (auto simp: replica_rows_concat replica_row_def split: if_splits)

lemma filter_replica_rows: "filter (\<lambda>r. \<not> isReplicaRow r) (replica_rows tg hg rc) = []"
  by (simp add: filter_empty_conv replica_rows_are_replicas)

lemma summary_rows_zip:
  "filter (\<lambda>r. \<not> isReplicaRow r) (calculateProcessingRows t h cfg) =
     map (\<lambda>(tg, hg). summary_row tg hg (reference_of (replicaGroups t) (replicaGroups h))
                        (replicaCount cfg))
       (zip (replicaGroups t) (replicaGroups h))"
proof -
  have "\<And>ref rc ps. filter (\<lambda>r. \<not> isReplicaRow r)
           (concat (map (\<lambda>(tg, hg). summary_row tg hg ref rc # replica_rows tg hg rc) ps))
         = map (\<lambda>(tg, hg). summary_row tg hg ref rc) ps"
  proof -
    fix ref rc and ps :: "(ReplicaGroup \<times> ReplicaGroup) list"
    show "filter (\<lambda>r. \<not> isReplicaRow r)
           (concat (map (\<lambda>(tg, hg). summary_row tg hg ref rc # replica_rows tg hg rc) ps))
         = map (\<lambda>(tg, hg). summary_row tg hg ref rc) ps"
      by (induction ps) (auto simp: summary_row_fields filter_replica_rows)
  qed
  then show ?thesis by (simp only: calculateProcessingRows_zip)
qed

lemma first_summary_row:
  "find (\<lambda>r. \<not> isReplicaRow r) (calculateProcessingRows t h cfg) =
     (case zip (replicaGroups t) (replicaGroups h) of
        [] \<Rightarrow> None
      | (tg, hg) # _ \<Rightarrow>
          Some (summary_row tg hg (reference_of (replicaGroups t) (replicaGroups h))
                  (replicaCount cfg)))"
  by (cases "zip (replicaGroups t) (replicaGroups h)")
     (auto simp: calculateProcessingRows_zip summary_row_fields)

lemma processGene_firstDeltaCt:
  "firstDeltaCt (processGene t h cfg) = reference_of (replicaGroups t) (replicaGroups h)"
  by (cases "zip (replicaGroups t) (replicaGroups h)")
     (auto simp: processGene_def first_summary_row reference_of_def summary_row_fields)

subsection \<open>Processing all genes\<close>

lemma update_fresh: "k \<notin> fst ` set al \<Longrightarrow> AList.update k v al = al @ [(k, v)]"
  by (induction al) auto

lemma processAllGenes_fold:
  "distinct (map fst m) \<Longrightarrow> fst ` set acc \<inter> fst ` set m = {} \<Longrightarrow>
   foldl (\<lambda>results (gene, geneData).
            if gene = hk then results
            else AList.update gene (P geneData) results) acc m
   = acc @ map (\<lambda>(n, g). (n, P g)) (filter (\<lambda>(n, g). n \<noteq> hk) m)"
proof (induction m arbitrary: acc)
  case Nil
  then show ?case by simp
next
  case (Cons p m)
  obtain n g where p: "p = (n, g)" by (cases p)
  from Cons.prems have fresh: "n \<notin> fst ` set acc" and d: "distinct (map fst m)"
    and nm: "n \<notin> fst ` set m" and disj: "fst ` set acc \<inter> fst ` set m = {}"
    by (auto simp: p)
  show ?case
  proof (cases "n = hk")
    case True
    then show ?thesis using Cons.IH [OF d disj] by (simp add: p)
  next
    case False
    have disj': "fst ` set (acc @ [(n, P g)]) \<inter> fst ` set m = {}"
      using disj nm by auto
    show ?thesis
      using False Cons.IH [OF d disj'] by (simp add: p update_fresh [OF fresh])
  qed
qed

lemma processAllGenes_eq:
  assumes "distinct (map fst m)" and "map_of m hk = Some hkd"
  shows "processAllGenes m hk cfg =
           Inr (map (\<lambda>(n, g). (n, processGene g hkd cfg)) (filter (\<lambda>(n, g). n \<noteq> hk) m))"
  using processAllGenes_fold [OF assms(1), of "[]" hk "\<lambda>g. processGene g hkd cfg"] assms(2)
  by (simp add: processAllGenes_def)

lemma processAllGenes_absent:
  "map_of m hk = None \<Longrightarrow> processAllGenes m hk cfg = Inl (HousekeeperNotFound hk)"
  by (simp add: processAllGenes_def)

lemma map_of_processed:
  assumes "distinct (map fst m)" and "(n, g) \<in> set m" and "n \<noteq> hk"
  shows "map_of (map (\<lambda>(n, g). (n, P g)) (filter (\<lambda>(n, g). n \<noteq> hk) m)) n = Some (P g)"
proof -
  have "distinct (map fst (map (\<lambda>(n, g). (n, P g)) (filter (\<lambda>(n, g). n \<noteq> hk) m)))"
    using assms(1) by (simp add: comp_def split_def distinct_map_filter)
  moreover have "(n, P g) \<in> set (map (\<lambda>(n, g). (n, P g)) (filter (\<lambda>(n, g). n \<noteq> hk) m))"
    using assms(2,3) by force
  ultimately show ?thesis by (rule map_of_is_SomeI)
qed

text \<open>
  Claim C4. On a gene map (its keys distinct), \<open>processAllGenes\<close> fails, with the
  lookup error, exactly when the housekeeper is not a key of the map; a result has no
  entry for the housekeeper, and has the other keys of the map in their order, each with
  the result of \<open>processGene\<close> on that gene and the housekeeper's data.
\<close>

theorem processAllGenes_housekeeper_lookup:
  assumes "distinct (map fst m)"
  shows "(isl (processAllGenes m hk cfg) \<longleftrightarrow> map_of m hk = None) \<and>
         (map_of m hk = None \<longrightarrow> processAllGenes m hk cfg = Inl (HousekeeperNotFound hk)) \<and>
         (\<forall>res. processAllGenes m hk cfg = Inr res \<longrightarrow>
            map_of res hk = None \<and>
            map fst res = filter (\<lambda>n. n \<noteq> hk) (map fst m) \<and>
            (\<forall>n g. (n, g) \<in> set m \<and> n \<noteq> hk \<longrightarrow>
               (\<exists>hkd. map_of m hk = Some hkd \<and> map_of res n = Some (processGene g hkd cfg))))"
proof (cases "map_of m hk")
  case None
  then show ?thesis by (simp add: processAllGenes_absent)
next
  case (Some hkd)
  let ?res = "map (\<lambda>(n, g). (n, processGene g hkd cfg)) (filter (\<lambda>(n, g). n \<noteq> hk) m)"
  have eq: "processAllGenes m hk cfg = Inr ?res"
    using assms Some by (rule processAllGenes_eq)
  have keys: "map fst ?res = filter (\<lambda>n. n \<noteq> hk) (map fst m)"
    by (induction m) auto
  have nohk: "map_of ?res hk = None"
  proof -
    have "hk \<notin> set (map fst ?res)" unfolding keys by simp
    then have "hk \<notin> fst ` set ?res" unfolding set_map .
    then show ?thesis by (rule map_of_eq_None_iff [THEN iffD2])
  qed
  have each: "\<And>n g. (n, g) \<in> set m \<Longrightarrow> n \<noteq> hk \<Longrightarrow> map_of ?res n = Some (processGene g hkd cfg)"
    using assms by (rule map_of_processed)
  show ?thesis using Some keys nohk each by (simp add: eq)
qed

theorem processAllGenes_housekeeper_lookup_witness:
  "distinct (map fst [(''GAPDH'', scenarioA_GAPDH), (''TP53'', scenarioA_TP53)]) \<and>
   isl (processAllGenes [(''GAPDH'', scenarioA_GAPDH), (''TP53'', scenarioA_TP53)]
          ''ACTB'' scenarioA_config) \<and>
   processAllGenes [(''GAPDH'', scenarioA_GAPDH), (''TP53'', scenarioA_TP53)]
          ''GAPDH'' scenarioA_config
     = Inr [(''TP53'', processGene scenarioA_TP53 scenarioA_GAPDH scenarioA_config)] \<and>
   map_of [(''TP53'', processGene scenarioA_TP53 scenarioA_GAPDH scenarioA_config)] ''GAPDH''
     = None"
proof -
  let ?m = "[(''GAPDH'', scenarioA_GAPDH), (''TP53'', scenarioA_TP53)]"
  let ?res = "[(''TP53'', processGene scenarioA_TP53 scenarioA_GAPDH scenarioA_config)]"
  have d: "distinct (map fst ?m)" by simp
  have absent: "map_of ?m ''ACTB'' = None" by simp
  have ev: "processAllGenes ?m ''GAPDH'' scenarioA_config = Inr ?res"
    by (simp add: processAllGenes_def)
  note a = processAllGenes_housekeeper_lookup [OF d, of "''ACTB''" scenarioA_config]
  note g = processAllGenes_housekeeper_lookup [OF d, of "''GAPDH''" scenarioA_config]
  from a absent have e: "isl (processAllGenes ?m ''ACTB'' scenarioA_config)" by blast
  from g ev have n: "map_of ?res ''GAPDH'' = None" by blast
  show ?thesis by (rule conjI [OF d conjI [OF e conjI [OF ev n]]])
qed

subsection \<open>Scenario A\<close>

lemma scenarioA_build:
  "buildGeneDataWithGroups scenarioA_data 3 [''S1'', ''S2'']
     = Inr [(''GAPDH'', scenarioA_GAPDH), (''TP53'', scenarioA_TP53)]"
  by code_simp

lemma scenarioA_groups:
  "replicaGroups scenarioA_GAPDH =
     [\<lparr>ReplicaGroup.sampleName = ''S1'', ReplicaGroup.sampleNumber = 1,
       ReplicaGroup.ctValues = [Finite 20, Finite 20, Finite 20]\<rparr>,
      \<lparr>ReplicaGroup.sampleName = ''S2'', ReplicaGroup.sampleNumber = 2,
       ReplicaGroup.ctValues = [Finite 22, Finite 22, Finite 22]\<rparr>]"
  "replicaGroups scenarioA_TP53 =
     [\<lparr>ReplicaGroup.sampleName = ''S1'', ReplicaGroup.sampleNumber = 1,
       ReplicaGroup.ctValues = [Finite 25, Finite 25, Finite 25]\<rparr>,
      \<lparr>ReplicaGroup.sampleName = ''S2'', ReplicaGroup.sampleNumber = 2,
       ReplicaGroup.ctValues = [Finite 25, Finite 25, Finite 25]\<rparr>]"
  by code_simp+

lemma scenarioA_means:
  "mean [Finite 20, Finite 20, Finite 20] = Finite 20"
  "mean [Finite 22, Finite 22, Finite 22] = Finite 22"
  "mean [Finite 25, Finite 25, Finite 25] = Finite 25"
  by (simp_all add: mean_def fl_small_values)

lemma scenarioA_differences:
  "num_sub (Finite 25) (Finite 20) = Finite 5"
  "num_sub (Finite 25) (Finite 22) = Finite 3"
  "num_sub (Finite 5) (Finite 5) = Finite 0"
  "num_sub (Finite 3) (Finite 5) = Finite (- 2)"
  by (simp_all add: num_sub_def fl_small_values fl_zero)

lemma foldChange_zero: "foldChange (Finite 0) = Finite 1"
  by (simp add: foldChange_def)

lemma foldChange_minus_two: "foldChange (Finite (- 2)) = Finite 4"
  by (simp add: foldChange_def real_pow_def fl_small_values)

text \<open>
  Claim C1. Scenario A: GAPDH (housekeeper) with CT values 20, 20, 20, 22, 22, 22 and
  TP53 with six times 25, two samples of three replicas. The table is grouped into the
  two genes; the summary rows of TP53 give sample 1 \<open>\<Delta>CT = 5\<close>,
  \<open>\<Delta>\<Delta>CT = 0\<close>, fold change 1 and sample 2 \<open>\<Delta>CT = 3\<close>,
  \<open>\<Delta>\<Delta>CT = -2\<close>, fold change 4; the reference \<open>\<Delta>CT\<close> is 5.
\<close>

theorem scenario_A:
  "buildGeneDataWithGroups scenarioA_data 3 [''S1'', ''S2'']
     = Inr [(''GAPDH'', scenarioA_GAPDH), (''TP53'', scenarioA_TP53)] \<and>
   map (\<lambda>r. (ProcessingTableRow.sampleNumber r, deltaCt r, deltaDeltaCt r,
              ProcessingTableRow.foldChange r))
     (filter (\<lambda>r. \<not> isReplicaRow r)
        (calculateProcessingRows scenarioA_TP53 scenarioA_GAPDH scenarioA_config))
     = [(1, Finite 5, Finite 0, Finite 1), (2, Finite 3, Finite (- 2), Finite 4)] \<and>
   firstDeltaCt (processGene scenarioA_TP53 scenarioA_GAPDH scenarioA_config) = Finite 5"
proof (intro conjI)
  have ref: "reference_of (replicaGroups scenarioA_TP53) (replicaGroups scenarioA_GAPDH) = Finite 5"
    by (simp add: reference_of_def scenarioA_groups scenarioA_means scenarioA_differences)
  show "buildGeneDataWithGroups scenarioA_data 3 [''S1'', ''S2'']
     = Inr [(''GAPDH'', scenarioA_GAPDH), (''TP53'', scenarioA_TP53)]"
    by (rule scenarioA_build)
  show "map (\<lambda>r. (ProcessingTableRow.sampleNumber r, deltaCt r, deltaDeltaCt r,
              ProcessingTableRow.foldChange r))
     (filter (\<lambda>r. \<not> isReplicaRow r)
        (calculateProcessingRows scenarioA_TP53 scenarioA_GAPDH scenarioA_config))
     = [(1, Finite 5, Finite 0, Finite 1), (2, Finite 3, Finite (- 2), Finite 4)]"
    unfolding summary_rows_zip ref
    by (simp add: scenarioA_groups summary_row_fields scenarioA_means scenarioA_differences
          foldChange_zero foldChange_minus_two)
  show "firstDeltaCt (processGene scenarioA_TP53 scenarioA_GAPDH scenarioA_config) = Finite 5"
    by (simp only: processGene_firstDeltaCt ref)
qed

subsection \<open>The first summary row\<close>

lemma num_sub_self: "num_sub d d = (if isFinite d then Finite 0 else NaN)"
  by (cases d) (simp_all add: num_sub_def fl_zero)

lemma foldChange_NaN: "foldChange NaN = NaN"
  by (simp add: foldChange_def)

text \<open>
  Claim C9, amended. When both genes have a first group, the first summary row's
  \<open>\<Delta>CT\<close> is the reference; its \<open>\<Delta>\<Delta>CT\<close> is 0 and its fold change 1
  when that \<open>\<Delta>CT\<close> is finite, and both are \<open>NaN\<close> when it is not.
\<close>

theorem first_summary_row_baseline:
  assumes "replicaGroups t \<noteq> []" and "replicaGroups h \<noteq> []"
  shows "\<exists>r. find (\<lambda>r. \<not> isReplicaRow r) (calculateProcessingRows t h cfg) = Some r \<and>
             deltaCt r = firstDeltaCt (processGene t h cfg) \<and>
             deltaDeltaCt r = (if isFinite (deltaCt r) then Finite 0 else NaN) \<and>
             ProcessingTableRow.foldChange r = (if isFinite (deltaCt r) then Finite 1 else NaN)"
proof -
  from assms obtain tg tgs hg hgs
    where t: "replicaGroups t = tg # tgs" and h: "replicaGroups h = hg # hgs"
    by (meson list.exhaust)
  let ?d = "num_sub (mean (ReplicaGroup.ctValues tg)) (mean (ReplicaGroup.ctValues hg))"
  let ?r = "summary_row tg hg ?d (replicaCount cfg)"
  have ref: "reference_of (replicaGroups t) (replicaGroups h) = ?d"
    by (simp add: reference_of_def t h)
  have "find (\<lambda>r. \<not> isReplicaRow r) (calculateProcessingRows t h cfg) = Some ?r"
    by (simp add: first_summary_row t h reference_of_def)
  moreover have "deltaCt ?r = firstDeltaCt (processGene t h cfg)"
    by (simp add: processGene_firstDeltaCt ref summary_row_fields)
  moreover have "deltaDeltaCt ?r = (if isFinite (deltaCt ?r) then Finite 0 else NaN)"
    by (simp only: summary_row_fields num_sub_self)
  moreover have "ProcessingTableRow.foldChange ?r = (if isFinite (deltaCt ?r) then Finite 1 else NaN)"
    by (simp add: summary_row_fields num_sub_self foldChange_zero foldChange_NaN)
  ultimately show ?thesis by blast
qed

lemma scenarioA_reference:
  "reference_of (replicaGroups scenarioA_TP53) (replicaGroups scenarioA_GAPDH) = Finite 5"
  by (simp add: reference_of_def scenarioA_groups scenarioA_means scenarioA_differences)

theorem first_summary_row_baseline_witness:
  "replicaGroups scenarioA_TP53 \<noteq> [] \<and> replicaGroups scenarioA_GAPDH \<noteq> [] \<and>
   (\<exists>r. find (\<lambda>r. \<not> isReplicaRow r)
          (calculateProcessingRows scenarioA_TP53 scenarioA_GAPDH scenarioA_config) = Some r \<and>
        deltaCt r = Finite 5 \<and> deltaDeltaCt r = Finite 0 \<and>
        ProcessingTableRow.foldChange r = Finite 1)"
proof -
  have t: "replicaGroups scenarioA_TP53 \<noteq> []" and h: "replicaGroups scenarioA_GAPDH \<noteq> []"
    by (simp_all add: scenarioA_groups)
  from first_summary_row_baseline [OF t h, of scenarioA_config]
  obtain r where r: "find (\<lambda>r. \<not> isReplicaRow r)
          (calculateProcessingRows scenarioA_TP53 scenarioA_GAPDH scenarioA_config) = Some r"
    and d: "deltaCt r = firstDeltaCt (processGene scenarioA_TP53 scenarioA_GAPDH scenarioA_config)"
    and dd: "deltaDeltaCt r = (if isFinite (deltaCt r) then Finite 0 else NaN)"
    and fc: "ProcessingTableRow.foldChange r = (if isFinite (deltaCt r) then Finite 1 else NaN)"
    by blast
  from d have d5: "deltaCt r = Finite 5"
    by (simp only: processGene_firstDeltaCt scenarioA_reference)
  from dd fc have "deltaDeltaCt r = Finite 0" "ProcessingTableRow.foldChange r = Finite 1"
    by (simp_all add: d5)
  with r d5 t h show ?thesis by blast
qed

lemma infinity_build:
  "buildGeneDataWithGroups infinity_data 1 [''S1'']
     = Inr [(''GAPDH'', infinity_GAPDH), (''TP53'', infinity_TP53)]"
  by code_simp

text \<open>
  The claim as stated fails on the table with the CT text \<open>Infinity\<close>: the first
  summary row has \<open>\<Delta>CT = +\<infinity>\<close>, so \<open>\<Delta>\<Delta>CT\<close> and the fold change are
  \<open>NaN\<close>.
\<close>

theorem first_summary_row_baseline_counterexample:
  "buildGeneDataWithGroups infinity_data 1 [''S1'']
     = Inr [(''GAPDH'', infinity_GAPDH), (''TP53'', infinity_TP53)] \<and>
   map isReplicaRow (calculateProcessingRows infinity_TP53 infinity_GAPDH infinity_config)
     = [False, True] \<and>
   map deltaCt (calculateProcessingRows infinity_TP53 infinity_GAPDH infinity_config)
     = [PosInfinity, Finite 0] \<and>
   map deltaDeltaCt (calculateProcessingRows infinity_TP53 infinity_GAPDH infinity_config)
     = [NaN, Finite 0] \<and>
   map ProcessingTableRow.foldChange
       (calculateProcessingRows infinity_TP53 infinity_GAPDH infinity_config)
     = [NaN, Finite 0]"
proof -
  have rows: "calculateProcessingRows infinity_TP53 infinity_GAPDH infinity_config
     = [summary_row (hd (replicaGroups infinity_TP53)) (hd (replicaGroups infinity_GAPDH))
          PosInfinity 1,
        replica_row (hd (replicaGroups infinity_TP53)) (hd (replicaGroups infinity_GAPDH)) 0]"
    by (simp add: calculateProcessingRows_zip infinity_TP53_def infinity_GAPDH_def
          infinity_config_def reference_of_def mean_def num_sub_def replica_rows_concat
          fl_small_values
          signed_infinity_def)
  show ?thesis
    unfolding rows
    by (simp add: infinity_build summary_row_fields replica_row_def infinity_TP53_def
          infinity_GAPDH_def mean_def num_sub_def foldChange_NaN signed_infinity_def
          fl_small_values)
qed

subsection \<open>Genes without a paired sample\<close>

lemma ragged_build:
  "buildGeneDataWithGroups ragged_data 3 [''S1'']
     = Inr [(''GAPDH'', ragged_GAPDH), (''TP53'', ragged_TP53)]"
  by code_simp

lemma processGene_unpaired:
  assumes "\<not> (\<exists>i. i < length (replicaGroups g) \<and> i < length (replicaGroups h))"
  shows "processGene g h cfg =
           \<lparr> GeneProcessingResult.geneName = name g, GeneProcessingResult.rows = [],
             firstDeltaCt = Finite 0 \<rparr>"
proof -
  have "replicaGroups g = [] \<or> replicaGroups h = []"
  proof (rule ccontr)
    assume "\<not> ?thesis"
    then have "0 < length (replicaGroups g) \<and> 0 < length (replicaGroups h)" by simp
    with assms show False by blast
  qed
  then have z: "zip (replicaGroups g) (replicaGroups h) = []" by auto
  have "calculateProcessingRows g h cfg = []"
    by (simp add: calculateProcessingRows_zip z)
  then show ?thesis by (simp add: processGene_def)
qed

text \<open>
  Claim C3, amended. A gene other than the housekeeper with no index at which both it
  and the housekeeper have a group raises no error and stays in the result map of
  \<open>processAllGenes\<close>, with an empty row list and the reference \<open>\<Delta>CT\<close> 0.
\<close>

theorem processAllGenes_keeps_unpaired_gene:
  assumes "distinct (map fst m)" and "map_of m hk = Some hkd"
    and "(n, g) \<in> set m" and "n \<noteq> hk"
    and "\<not> (\<exists>i. i < length (replicaGroups g) \<and> i < length (replicaGroups hkd))"
  shows "\<exists>res. processAllGenes m hk cfg = Inr res \<and>
               map_of res n = Some \<lparr> GeneProcessingResult.geneName = name g,
                                      GeneProcessingResult.rows = [],
                                      firstDeltaCt = Finite 0 \<rparr>"
proof -
  let ?res = "map (\<lambda>(n, g). (n, processGene g hkd cfg)) (filter (\<lambda>(n, g). n \<noteq> hk) m)"
  have "processAllGenes m hk cfg = Inr ?res"
    using assms(1,2) by (rule processAllGenes_eq)
  moreover have "map_of ?res n = Some (processGene g hkd cfg)"
    using assms(1,3,4) by (rule map_of_processed)
  ultimately show ?thesis
    using processGene_unpaired [OF assms(5), of cfg] by simp
qed

theorem processAllGenes_keeps_unpaired_gene_witness:
  "distinct (map fst [(''GAPDH'', ragged_GAPDH), (''TP53'', ragged_TP53)]) \<and>
   map_of [(''GAPDH'', ragged_GAPDH), (''TP53'', ragged_TP53)] ''GAPDH'' = Some ragged_GAPDH \<and>
   (''TP53'', ragged_TP53) \<in> set [(''GAPDH'', ragged_GAPDH), (''TP53'', ragged_TP53)] \<and>
   ''TP53'' \<noteq> ''GAPDH'' \<and>
   \<not> (\<exists>i. i < length (replicaGroups ragged_TP53) \<and> i < length (replicaGroups ragged_GAPDH)) \<and>
   (\<exists>res. processAllGenes [(''GAPDH'', ragged_GAPDH), (''TP53'', ragged_TP53)] ''GAPDH''
            ragged_config = Inr res \<and>
          map_of res ''TP53'' = Some \<lparr> GeneProcessingResult.geneName = ''TP53'',
                                        GeneProcessingResult.rows = [],
                                        firstDeltaCt = Finite 0 \<rparr>)"
proof -
  let ?m = "[(''GAPDH'', ragged_GAPDH), (''TP53'', ragged_TP53)]"
  have d: "distinct (map fst ?m)" by simp
  have hk: "map_of ?m ''GAPDH'' = Some ragged_GAPDH" by simp
  have mem: "(''TP53'', ragged_TP53) \<in> set ?m" by simp
  have ne: "''TP53'' \<noteq> ''GAPDH''" by simp
  have un: "\<not> (\<exists>i. i < length (replicaGroups ragged_TP53) \<and> i < length (replicaGroups ragged_GAPDH))"
    by (simp add: ragged_TP53_def)
  have nm: "name ragged_TP53 = ''TP53''" by (simp add: ragged_TP53_def)
  note t = processAllGenes_keeps_unpaired_gene [OF d hk mem ne un, of ragged_config,
             unfolded nm]
  show ?thesis by (rule conjI [OF d conjI [OF hk conjI [OF mem conjI [OF ne conjI [OF un t]]]]])
qed

text \<open>
  The claim as stated fails on the ragged table: TP53 has no group, and the result map
  has an entry for it.
\<close>

theorem processAllGenes_drops_unpaired_gene_counterexample:
  "buildGeneDataWithGroups ragged_data 3 [''S1'']
     = Inr [(''GAPDH'', ragged_GAPDH), (''TP53'', ragged_TP53)] \<and>
   replicaGroups ragged_TP53 = [] \<and>
   processAllGenes [(''GAPDH'', ragged_GAPDH), (''TP53'', ragged_TP53)] ''GAPDH'' ragged_config
     = Inr [(''TP53'', \<lparr> GeneProcessingResult.geneName = ''TP53'',
                         GeneProcessingResult.rows = [], firstDeltaCt = Finite 0 \<rparr>)]"
proof (intro conjI)
  show "buildGeneDataWithGroups ragged_data 3 [''S1'']
     = Inr [(''GAPDH'', ragged_GAPDH), (''TP53'', ragged_TP53)]"
    by (rule ragged_build)
  show g: "replicaGroups ragged_TP53 = []" by (simp add: ragged_TP53_def)
  have "processGene ragged_TP53 ragged_GAPDH ragged_config
          = \<lparr> GeneProcessingResult.geneName = ''TP53'',
              GeneProcessingResult.rows = [], firstDeltaCt = Finite 0 \<rparr>"
    using processGene_unpaired [of ragged_TP53 ragged_GAPDH ragged_config]
    by (simp add: g) (simp add: ragged_TP53_def)
  then show "processAllGenes [(''GAPDH'', ragged_GAPDH), (''TP53'', ragged_TP53)] ''GAPDH''
       ragged_config
     = Inr [(''TP53'', \<lparr> GeneProcessingResult.geneName = ''TP53'',
                         GeneProcessingResult.rows = [], firstDeltaCt = Finite 0 \<rparr>)]"
    by (simp add: processAllGenes_def)
qed

subsection \<open>Extraction\<close>

lemma set_update_subset: "set (AList.update k v al) \<subseteq> insert (k, v) (set al)"
  by (induction al) auto

lemma extracted_ok_update:
  assumes "extracted_ok rs c geneMap" and "name gd = k" and "k \<noteq> []"
    and "\<not> sample_pattern (trim k)"
    and "\<forall>m \<in> set (measurements gd). recorded_from rs c k m"
  shows "extracted_ok rs c (AList.update k gd geneMap)"
  unfolding extracted_ok_def
proof (intro ballI)
  fix p
  assume "p \<in> set (AList.update k gd geneMap)"
  then have "p = (k, gd) \<or> p \<in> set geneMap"
    using set_update_subset [of k gd geneMap] by auto
  then show "case p of (gene, geneData) \<Rightarrow>
               name geneData = gene \<and> gene \<noteq> [] \<and> \<not> sample_pattern (trim gene) \<and>
               (\<forall>m \<in> set (measurements geneData). recorded_from rs c gene m)"
  proof
    assume "p = (k, gd)"
    with assms(2-5) show ?thesis by simp
  next
    assume "p \<in> set geneMap"
    with assms(1) show ?thesis unfolding extracted_ok_def by (rule bspec)
  qed
qed

lemma extract_row_ok:
  assumes ok: "extracted_ok rs c geneMap" and i: "i < length rs" and row: "rs ! i = row"
  shows "extracted_ok rs c (extract_row c geneMap (row, i))"
proof (cases "shouldIgnoreRow row \<or> row ''Name'' = None \<or> row ''Name'' = Some []
              \<or> isNaN (parseFloat (ct_field c row))")
  case True
  then have "extract_row c geneMap (row, i) = geneMap"
    by (auto simp: extract_row_def Let_def split: option.splits)
  with ok show ?thesis by simp
next
  case False
  then obtain gene where gene: "row ''Name'' = Some gene" "gene \<noteq> []"
    and keep: "\<not> shouldIgnoreRow row" and num: "\<not> isNaN (parseFloat (ct_field c row))"
    by auto
  let ?v = "parseFloat (ct_field c row)"
  let ?new = "\<lparr> name = gene, measurements = [], replicaGroups = [] \<rparr>"
  let ?gm = "if map_of geneMap gene = None then AList.update gene ?new geneMap else geneMap"
  have pat: "\<not> sample_pattern (trim gene)"
    using keep gene by (simp add: shouldIgnoreRow_def)
  have m_ok: "recorded_from rs c gene \<lparr> val = ?v, rowIndex = i \<rparr>"
    using i row keep gene num by (simp add: recorded_from_def)
  have gm_ok: "extracted_ok rs c ?gm"
  proof (cases "map_of geneMap gene = None")
    case True
    have "extracted_ok rs c (AList.update gene ?new geneMap)"
      using ok _ gene(2) pat by (rule extracted_ok_update) simp_all
    with True show ?thesis by simp
  next
    case False
    with ok show ?thesis by auto
  qed
  have step: "extract_row c geneMap (row, i) =
        (case map_of ?gm gene of
           None \<Rightarrow> ?gm
         | Some geneData \<Rightarrow>
             AList.update gene
               (geneData\<lparr> measurements := measurements geneData @ [\<lparr> val = ?v, rowIndex = i \<rparr>] \<rparr>)
               ?gm)"
    using keep gene num by (simp add: extract_row_def Let_def)
  show ?thesis
  proof (cases "map_of ?gm gene")
    case None
    with step gm_ok show ?thesis by simp
  next
    case (Some geneData)
    let ?gd = "geneData\<lparr> measurements := measurements geneData @ [\<lparr> val = ?v, rowIndex = i \<rparr>] \<rparr>"
    from Some have "(gene, geneData) \<in> set ?gm" by (rule map_of_SomeD)
    with gm_ok have gd: "name geneData = gene"
      "\<forall>m \<in> set (measurements geneData). recorded_from rs c gene m"
      by (auto simp: extracted_ok_def)
    have "extracted_ok rs c (AList.update gene ?gd ?gm)"
      using gm_ok _ gene(2) pat by (rule extracted_ok_update) (use gd m_ok in auto)
    moreover have "extract_row c geneMap (row, i) = AList.update gene ?gd ?gm"
      using step Some by simp
    ultimately show ?thesis by simp
  qed
qed

lemma extract_fold_ok:
  assumes "extracted_ok rs c geneMap"
    and "\<forall>(row, i) \<in> set entries. i < length rs \<and> rs ! i = row"
  shows "extracted_ok rs c (foldl (extract_row c) geneMap entries)"
  using assms
proof (induction entries arbitrary: geneMap)
  case Nil
  then show ?case by simp
next
  case (Cons e entries)
  obtain row i where e: "e = (row, i)" by (cases e)
  from Cons.prems(2) have "i < length rs" "rs ! i = row" by (auto simp: e)
  with Cons.prems(1) have "extracted_ok rs c (extract_row c geneMap (row, i))"
    by (rule extract_row_ok)
  moreover from Cons.prems(2) have "\<forall>(row, i) \<in> set entries. i < length rs \<and> rs ! i = row"
    by simp
  ultimately show ?case using Cons.IH by (simp add: e)
qed

lemma extractGeneData_ok:
  assumes "extractGeneData data = Inr geneMap"
  shows "\<exists>ctColumn. detectCtColumn data = Some ctColumn \<and> ctColumn \<noteq> [] \<and>
           extracted_ok (ParsedTsvData.rows data) ctColumn geneMap"
proof -
  from assms obtain c where c: "detectCtColumn data = Some c" "c \<noteq> []"
    and gm: "geneMap = foldl (extract_row c) []
               (zip (ParsedTsvData.rows data) [0 ..< length (ParsedTsvData.rows data)])"
    by (auto simp: extractGeneData_def split: option.splits if_splits)
  let ?rs = "ParsedTsvData.rows data"
  have "\<forall>(row, i) \<in> set (zip ?rs [0 ..< length ?rs]). i < length ?rs \<and> ?rs ! i = row"
    by (auto simp: in_set_zip)
  moreover have "extracted_ok ?rs c []" by (simp add: extracted_ok_def)
  ultimately have "extracted_ok ?rs c geneMap"
    unfolding gm by (intro extract_fold_ok)
  with c show ?thesis by blast
qed

lemma ws_not_s: "is_ws c \<Longrightarrow> lower_char c \<noteq> CHR ''s''"
  by (auto simp: is_ws_def lower_char_def Let_def)

lemma digit_not_ws: "is_digit c \<Longrightarrow> \<not> is_ws c"
  by (auto simp: is_ws_def is_digit_def)

lemma last_dropWhile: "dropWhile P xs \<noteq> [] \<Longrightarrow> last (dropWhile P xs) = last xs"
  by (metis last_appendR takeWhile_dropWhile_id)

lemma last_drop_nonempty: "drop n xs \<noteq> [] \<Longrightarrow> last (drop n xs) = last xs"
  by (metis append_take_drop_id last_appendR)

lemma sample_pattern_trim:
  assumes "sample_pattern s"
  shows "trim s = s"
proof -
  from assms have six: "map lower_char (take 6 s) = ''sample''"
    and tail: "dropWhile is_ws (drop 6 s) \<noteq> []"
    and digs: "list_all is_digit (dropWhile is_ws (drop 6 s))"
    by (simp_all add: sample_pattern_def Let_def)
  from six obtain c cs where s: "s = c # cs" and c: "lower_char c = CHR ''s''"
    by (cases s) auto
  have first: "\<not> is_ws c" using c ws_not_s by blast
  have "drop 6 s \<noteq> []" using tail by auto
  then have "last (dropWhile is_ws (drop 6 s)) = last s"
    using tail by (simp add: last_dropWhile last_drop_nonempty)
  moreover have "is_digit (last (dropWhile is_ws (drop 6 s)))"
    using digs tail by (simp add: list_all_iff)
  ultimately have lastc: "\<not> is_ws (last s)" using digit_not_ws by simp
  have "dropWhile is_ws s = s" using first s by simp
  moreover have "dropWhile is_ws (rev s) = rev s"
  proof (cases "rev s")
    case Nil
    then show ?thesis by simp
  next
    case (Cons a as)
    have "hd (rev s) = last s" using s by (simp add: hd_rev)
    with Cons lastc have "\<not> is_ws a" by simp
    with Cons show ?thesis by simp
  qed
  ultimately show ?thesis by (simp add: trim_def)
qed

text \<open>
  Claim C8. No key of the gene map that \<open>extractGeneData\<close> returns matches
  \<open>/^Sample\s*\d+$/i\<close>, trimmed or not, and no measurement of any gene has the index of
  a row whose name matches it.
\<close>

theorem extractGeneData_excludes_marker_rows:
  assumes "extractGeneData data = Inr geneMap"
  shows "(\<forall>(gene, geneData) \<in> set geneMap.
            \<not> sample_pattern gene \<and> \<not> sample_pattern (trim gene)) \<and>
         (\<forall>i < length (ParsedTsvData.rows data). \<forall>nm.
            (ParsedTsvData.rows data ! i) ''Name'' = Some nm \<and>
            (sample_pattern nm \<or> sample_pattern (trim nm)) \<longrightarrow>
            (\<forall>(gene, geneData) \<in> set geneMap. i \<notin> rowIndex ` set (measurements geneData)))"
proof -
  from extractGeneData_ok [OF assms] obtain c
    where ok: "extracted_ok (ParsedTsvData.rows data) c geneMap" by blast
  have keys: "\<forall>(gene, geneData) \<in> set geneMap.
            \<not> sample_pattern gene \<and> \<not> sample_pattern (trim gene)"
  proof (intro ballI, clarify)
    fix gene geneData
    assume "(gene, geneData) \<in> set geneMap"
    with ok have t: "\<not> sample_pattern (trim gene)" by (auto simp: extracted_ok_def)
    moreover have "\<not> sample_pattern gene"
    proof
      assume p: "sample_pattern gene"
      then have "trim gene = gene" by (rule sample_pattern_trim)
      with t p show False by simp
    qed
    ultimately show "\<not> sample_pattern gene \<and> \<not> sample_pattern (trim gene)" by simp
  qed
  have marker: "\<forall>i < length (ParsedTsvData.rows data). \<forall>nm.
            (ParsedTsvData.rows data ! i) ''Name'' = Some nm \<and>
            (sample_pattern nm \<or> sample_pattern (trim nm)) \<longrightarrow>
            (\<forall>(gene, geneData) \<in> set geneMap. i \<notin> rowIndex ` set (measurements geneData))"
  proof (intro allI impI)
    fix i nm
    assume "i < length (ParsedTsvData.rows data)"
      and h: "(ParsedTsvData.rows data ! i) ''Name'' = Some nm \<and>
              (sample_pattern nm \<or> sample_pattern (trim nm))"
    from h have "sample_pattern (trim nm)" using sample_pattern_trim by auto
    with h have ign: "shouldIgnoreRow (ParsedTsvData.rows data ! i)"
      by (simp add: shouldIgnoreRow_def)
    have "False" if g: "(gene, geneData) \<in> set geneMap" and m: "m \<in> set (measurements geneData)"
      and i: "rowIndex m = i" for gene geneData m
    proof -
      from ok g m have "recorded_from (ParsedTsvData.rows data) c gene m"
        by (auto simp: extracted_ok_def)
      with ign i show False by (simp add: recorded_from_def)
    qed
    then show "\<forall>(gene, geneData) \<in> set geneMap. i \<notin> rowIndex ` set (measurements geneData)"
      by auto
  qed
  from keys marker show ?thesis by (rule conjI)
qed

lemma marker_extract:
  "extractGeneData marker_data = Inr [(''GAPDH'', marker_GAPDH), (''TP53'', marker_TP53)]"
  by code_simp

lemma marker_detect: "detectCtColumn marker_data = Some ''Cp''"
  by code_simp

lemma marker_row_1:
  "(ParsedTsvData.rows marker_data ! 1) ''Name'' = Some ''Sample 3''"
  "sample_pattern ''Sample 3''"
  "1 < length (ParsedTsvData.rows marker_data)"
  by code_simp+

lemma marker_row_2:
  "isNaN (parseFloat (ct_field ''Cp'' (ParsedTsvData.rows marker_data ! 2)))"
  "2 < length (ParsedTsvData.rows marker_data)"
  by code_simp+

theorem extractGeneData_excludes_marker_rows_witness:
  "extractGeneData marker_data = Inr [(''GAPDH'', marker_GAPDH), (''TP53'', marker_TP53)] \<and>
   (ParsedTsvData.rows marker_data ! 1) ''Name'' = Some ''Sample 3'' \<and>
   sample_pattern ''Sample 3'' \<and>
   \<not> sample_pattern ''GAPDH'' \<and> \<not> sample_pattern ''TP53'' \<and>
   1 \<notin> rowIndex ` set (measurements marker_GAPDH) \<and>
   1 \<notin> rowIndex ` set (measurements marker_TP53)"
proof -
  let ?gm = "[(''GAPDH'', marker_GAPDH), (''TP53'', marker_TP53)]"
  note t = extractGeneData_excludes_marker_rows [OF marker_extract]
  have g: "(''GAPDH'', marker_GAPDH) \<in> set ?gm" and p: "(''TP53'', marker_TP53) \<in> set ?gm"
    by simp_all
  from t g have k1: "\<not> sample_pattern ''GAPDH''" by blast
  from t p have k2: "\<not> sample_pattern ''TP53''" by blast
  from t marker_row_1
  have no: "\<forall>(gene, geneData) \<in> set ?gm. 1 \<notin> rowIndex ` set (measurements geneData)"
    by blast
  from no g have m1: "1 \<notin> rowIndex ` set (measurements marker_GAPDH)" by blast
  from no p have m2: "1 \<notin> rowIndex ` set (measurements marker_TP53)" by blast
  show ?thesis
    by (intro conjI marker_extract marker_row_1(1) marker_row_1(2) k1 k2 m1 m2)
qed

subsection \<open>Every recordable row is recorded\<close>

lemma extract_row_recordable:
  assumes "recordable c row gene"
  shows "map_of (extract_row c geneMap (row, i)) =
           (map_of geneMap)(gene \<mapsto>
              (case map_of geneMap gene of
                 None \<Rightarrow> \<lparr> name = gene, measurements = [], replicaGroups = [] \<rparr>
               | Some geneData \<Rightarrow> geneData)
              \<lparr> measurements :=
                  measurements (case map_of geneMap gene of
                                  None \<Rightarrow> \<lparr> name = gene, measurements = [], replicaGroups = [] \<rparr>
                                | Some geneData \<Rightarrow> geneData)
                  @ [\<lparr> val = parseFloat (ct_field c row), rowIndex = i \<rparr>] \<rparr>)"
  using assms
  by (cases "map_of geneMap gene")
     (simp_all add: extract_row_def recordable_def Let_def update_conv')

lemma extract_row_skip:
  assumes "\<not> (\<exists>gene. recordable c row gene)"
  shows "extract_row c geneMap (row, i) = geneMap"
  using assms
  by (auto simp: extract_row_def recordable_def Let_def split: option.splits)

lemma extract_row_keeps:
  assumes "holds_measurement geneMap g m"
  shows "holds_measurement (extract_row c geneMap (row, i)) g m"
proof (cases "\<exists>gene. recordable c row gene")
  case False
  with assms show ?thesis by (simp add: extract_row_skip)
next
  case True
  then obtain gene where r: "recordable c row gene" ..
  show ?thesis
    using assms
    by (auto simp: holds_measurement_def extract_row_recordable [OF r] split: option.splits)
qed

lemma extract_row_records:
  assumes "recordable c row gene"
  shows "holds_measurement (extract_row c geneMap (row, i)) gene
           \<lparr> val = parseFloat (ct_field c row), rowIndex = i \<rparr>"
  by (simp add: holds_measurement_def extract_row_recordable [OF assms])

lemma extract_fold_keeps:
  "holds_measurement geneMap g m \<Longrightarrow>
   holds_measurement (foldl (extract_row c) geneMap entries) g m"
proof (induction entries arbitrary: geneMap)
  case Nil
  then show ?case by simp
next
  case (Cons e entries)
  obtain row i where e: "e = (row, i)" by (cases e)
  from Cons.prems have "holds_measurement (extract_row c geneMap (row, i)) g m"
    by (rule extract_row_keeps)
  then show ?case using Cons.IH by (simp add: e)
qed

lemma extract_fold_records:
  assumes "(row, i) \<in> set entries" and "recordable c row gene"
  shows "holds_measurement (foldl (extract_row c) geneMap entries) gene
           \<lparr> val = parseFloat (ct_field c row), rowIndex = i \<rparr>"
  using assms(1)
proof (induction entries arbitrary: geneMap)
  case Nil
  then show ?case by simp
next
  case (Cons e entries)
  show ?case
  proof (cases "e = (row, i)")
    case True
    have "holds_measurement (extract_row c geneMap (row, i)) gene
            \<lparr> val = parseFloat (ct_field c row), rowIndex = i \<rparr>"
      using assms(2) by (rule extract_row_records)
    then show ?thesis using True by (simp add: extract_fold_keeps)
  next
    case False
    with Cons.prems have "(row, i) \<in> set entries" by simp
    then show ?thesis using Cons.IH by simp
  qed
qed

lemma extractGeneData_records:
  assumes "extractGeneData data = Inr geneMap" and "detectCtColumn data = Some c"
    and "i < length (ParsedTsvData.rows data)"
    and "recordable c (ParsedTsvData.rows data ! i) gene"
  shows "holds_measurement geneMap gene
           \<lparr> val = parseFloat (ct_field c (ParsedTsvData.rows data ! i)), rowIndex = i \<rparr>"
proof -
  let ?rs = "ParsedTsvData.rows data"
  from assms(1,2) have gm: "geneMap = foldl (extract_row c) [] (zip ?rs [0 ..< length ?rs])"
    by (auto simp: extractGeneData_def split: if_splits)
  have "(?rs ! i, i) \<in> set (zip ?rs [0 ..< length ?rs])"
    using assms(3) by (auto simp: in_set_zip)
  then show ?thesis unfolding gm using assms(4) by (rule extract_fold_records)
qed

text \<open>
  Claim C7, amended. Every measurement \<open>extractGeneData\<close> records is the value
  \<open>parseFloat\<close> gives for the CT field of its row and is not \<open>NaN\<close>; a row whose CT
  field parses to \<open>NaN\<close> gives no measurement; and every row that is not a marker row,
  has a non-empty name and a CT field that does not parse to \<open>NaN\<close> is recorded for its
  gene, also when the field parses to an infinity.
\<close>

theorem extractGeneData_skips_NaN:
  assumes "extractGeneData data = Inr geneMap"
  shows "\<exists>ctColumn. detectCtColumn data = Some ctColumn \<and>
           (\<forall>(gene, geneData) \<in> set geneMap. \<forall>m \<in> set (measurements geneData).
               rowIndex m < length (ParsedTsvData.rows data) \<and>
               val m = parseFloat (ct_field ctColumn (ParsedTsvData.rows data ! rowIndex m)) \<and>
               \<not> isNaN (val m)) \<and>
           (\<forall>i < length (ParsedTsvData.rows data).
               isNaN (parseFloat (ct_field ctColumn (ParsedTsvData.rows data ! i))) \<longrightarrow>
               (\<forall>(gene, geneData) \<in> set geneMap. i \<notin> rowIndex ` set (measurements geneData))) \<and>
           (\<forall>i < length (ParsedTsvData.rows data). \<forall>gene.
               recordable ctColumn (ParsedTsvData.rows data ! i) gene \<longrightarrow>
               holds_measurement geneMap gene
                 \<lparr> val = parseFloat (ct_field ctColumn (ParsedTsvData.rows data ! i)),
                   rowIndex = i \<rparr>)"
proof -
  from extractGeneData_ok [OF assms] obtain c
    where c: "detectCtColumn data = Some c"
      and ok: "extracted_ok (ParsedTsvData.rows data) c geneMap" by blast
  have rec: "\<And>gene geneData m. (gene, geneData) \<in> set geneMap \<Longrightarrow>
               m \<in> set (measurements geneData) \<Longrightarrow>
               recorded_from (ParsedTsvData.rows data) c gene m"
    using ok by (auto simp: extracted_ok_def)
  have "\<forall>(gene, geneData) \<in> set geneMap. \<forall>m \<in> set (measurements geneData).
               rowIndex m < length (ParsedTsvData.rows data) \<and>
               val m = parseFloat (ct_field c (ParsedTsvData.rows data ! rowIndex m)) \<and>
               \<not> isNaN (val m)"
    using rec by (auto simp: recorded_from_def)
  moreover have "\<forall>i < length (ParsedTsvData.rows data).
               isNaN (parseFloat (ct_field c (ParsedTsvData.rows data ! i))) \<longrightarrow>
               (\<forall>(gene, geneData) \<in> set geneMap. i \<notin> rowIndex ` set (measurements geneData))"
    using rec by (fastforce simp: recorded_from_def)
  moreover have "\<forall>i < length (ParsedTsvData.rows data). \<forall>gene.
               recordable c (ParsedTsvData.rows data ! i) gene \<longrightarrow>
               holds_measurement geneMap gene
                 \<lparr> val = parseFloat (ct_field c (ParsedTsvData.rows data ! i)), rowIndex = i \<rparr>"
    using extractGeneData_records [OF assms c] by blast
  ultimately show ?thesis using c by blast
qed

lemma marker_row_3:
  "recordable ''Cp'' (ParsedTsvData.rows marker_data ! 3) ''TP53''"
  "3 < length (ParsedTsvData.rows marker_data)"
  by code_simp+

theorem extractGeneData_skips_NaN_witness:
  "extractGeneData marker_data = Inr [(''GAPDH'', marker_GAPDH), (''TP53'', marker_TP53)] \<and>
   detectCtColumn marker_data = Some ''Cp'' \<and>
   isNaN (parseFloat (ct_field ''Cp'' (ParsedTsvData.rows marker_data ! 2))) \<and>
   2 \<notin> rowIndex ` set (measurements marker_TP53) \<and>
   \<not> isNaN (val (hd (measurements marker_TP53))) \<and>
   recordable ''Cp'' (ParsedTsvData.rows marker_data ! 3) ''TP53'' \<and>
   holds_measurement [(''GAPDH'', marker_GAPDH), (''TP53'', marker_TP53)] ''TP53''
     \<lparr> val = parseFloat (ct_field ''Cp'' (ParsedTsvData.rows marker_data ! 3)), rowIndex = 3 \<rparr>"
proof -
  let ?gm = "[(''GAPDH'', marker_GAPDH), (''TP53'', marker_TP53)]"
  from extractGeneData_skips_NaN [OF marker_extract] obtain c
    where c: "detectCtColumn marker_data = Some c"
      and rec: "\<forall>(gene, geneData) \<in> set ?gm. \<forall>m \<in> set (measurements geneData).
               rowIndex m < length (ParsedTsvData.rows marker_data) \<and>
               val m = parseFloat (ct_field c (ParsedTsvData.rows marker_data ! rowIndex m)) \<and>
               \<not> isNaN (val m)"
      and skip: "\<forall>i < length (ParsedTsvData.rows marker_data).
               isNaN (parseFloat (ct_field c (ParsedTsvData.rows marker_data ! i))) \<longrightarrow>
               (\<forall>(gene, geneData) \<in> set ?gm. i \<notin> rowIndex ` set (measurements geneData))"
      and keep: "\<forall>i < length (ParsedTsvData.rows marker_data). \<forall>gene.
               recordable c (ParsedTsvData.rows marker_data ! i) gene \<longrightarrow>
               holds_measurement ?gm gene
                 \<lparr> val = parseFloat (ct_field c (ParsedTsvData.rows marker_data ! i)),
                   rowIndex = i \<rparr>"
    by blast
  from c marker_detect have cp: "c = ''Cp''" by simp
  have p: "(''TP53'', marker_TP53) \<in> set ?gm" by simp
  have h: "hd (measurements marker_TP53) \<in> set (measurements marker_TP53)"
    by (simp add: marker_TP53_def)
  from skip marker_row_2 cp
  have "\<forall>(gene, geneData) \<in> set ?gm. 2 \<notin> rowIndex ` set (measurements geneData)"
    by blast
  with p have m: "2 \<notin> rowIndex ` set (measurements marker_TP53)" by blast
  from rec p h have n: "\<not> isNaN (val (hd (measurements marker_TP53)))" by blast
  from keep marker_row_3 cp
  have k: "holds_measurement ?gm ''TP53''
     \<lparr> val = parseFloat (ct_field ''Cp'' (ParsedTsvData.rows marker_data ! 3)), rowIndex = 3 \<rparr>"
    by blast
  show ?thesis
    by (intro conjI marker_extract marker_detect marker_row_2(1) m n marker_row_3(1) k)
qed

text \<open>
  The claim as stated fails: the CT text \<open>Infinity\<close> parses to \<open>+\<infinity>\<close>, which is not
  \<open>NaN\<close>, and is recorded.
\<close>

theorem extractGeneData_records_infinity_counterexample:
  "ct_field ''Cp'' (ParsedTsvData.rows infinity_data ! 1) = ''Infinity'' \<and>
   parseFloat ''Infinity'' = PosInfinity \<and>
   \<not> isFinite PosInfinity \<and>
   extractGeneData infinity_data = Inr infinity_extracted \<and>
   map (map val \<circ> measurements \<circ> snd) infinity_extracted = [[Finite 20], [PosInfinity]]"
  by code_simp

subsection \<open>Normalisation\<close>


lemma num_eq_zero: "num_eq n (Finite 0) = (n = Finite 0)"
  by (cases n) auto








text \<open>
  Rounding and overflow show in the result: the mean of the binary64 values nearest to
  0.1 and 0.2 is \<open>0.15000000000000002\<close>, and the mean of twice \<open>2\<^sup>1\<^sup>0\<^sup>2\<^sup>3\<close> is \<open>+\<infinity>\<close>.
\<close>

lemma calculateControlAverage_rounds:
  "fl (1 / 10) = Finite (3602879701896397 / 2 ^ 55) \<and>
   fl (2 / 10) = Finite (3602879701896397 / 2 ^ 54) \<and>
   calculateControlAverage [control_row ''S1'' (fl (1 / 10)), control_row ''S2'' (fl (2 / 10))]
     = Finite (5404319552844596 / 2 ^ 55)"
proof -
  have a: "fl (1 / 10) = Finite (3602879701896397 / 2 ^ 55)"
    and b: "fl (2 / 10) = Finite (3602879701896397 / 2 ^ 54)"
    by (simp_all add: fl_eval)
  have s1: "fl (3602879701896397 / 2 ^ 55) = Finite (3602879701896397 / 2 ^ 55)"
    by (simp add: fl_eval)
  have s2: "fl (3602879701896397 / 2 ^ 55 + 3602879701896397 / 2 ^ 54)
              = Finite (5404319552844596 / 2 ^ 54)"
    by (simp add: fl_eval)
  have d: "fl (5404319552844596 / 2 ^ 54 / 2) = Finite (5404319552844596 / 2 ^ 55)"
    by (simp add: fl_eval)
  have "calculateControlAverage
          [control_row ''S1'' (Finite (3602879701896397 / 2 ^ 55)),
           control_row ''S2'' (Finite (3602879701896397 / 2 ^ 54))]
        = num_div (num_add (num_add (Finite 0) (Finite (3602879701896397 / 2 ^ 55)))
                     (Finite (3602879701896397 / 2 ^ 54))) (Finite 2)"
    by (simp add: calculateControlAverage_def control_row_def mean_def del: num_add.simps num_div.simps)
  also have "\<dots> = Finite (5404319552844596 / 2 ^ 55)"
    using s1 s2 d by simp
  finally show ?thesis using a b by simp
qed

lemma calculateControlAverage_overflows:
  "calculateControlAverage
     [control_row ''S1'' (Finite (2 ^ 1023)), control_row ''S2'' (Finite (2 ^ 1023))]
   = PosInfinity"
proof -
  have s1: "fl (2 ^ 1023) = Finite (2 ^ 1023)"
    by (subst fl_with_exponent [where e = 1023]; simp add: pow2_def rne_def)
  have "calculateControlAverage
     [control_row ''S1'' (Finite (2 ^ 1023)), control_row ''S2'' (Finite (2 ^ 1023))]
        = num_div (num_add (num_add (Finite 0) (Finite (2 ^ 1023))) (Finite (2 ^ 1023))) (Finite 2)"
    by (simp add: calculateControlAverage_def control_row_def mean_def del: num_add.simps num_div.simps)
  also have "\<dots> = PosInfinity"
    using s1 fl_overflow_examples(1) by (simp add: signed_infinity_def)
  finally show ?thesis .
qed

lemma roundTo_4:
  "roundTo n (Finite 4) =
     (case n of
        Finite a \<Rightarrow>
          (case fl (a * 10 ^ 4) of
             Finite p \<Rightarrow> fl (of_int \<lfloor>p + 1 / 2\<rfloor> / 10 ^ 4)
           | other \<Rightarrow> other)
      | other \<Rightarrow> other)"
proof -
  have factor: "Math_pow (Finite 10) (Finite 4) = Finite 10000"
    by (simp add: real_pow_def fl_small_values)
  show ?thesis
    unfolding roundTo_def factor Let_def
    by (cases n) (auto simp: signed_infinity_def split: number.splits)
qed

lemma buildNormalizedTable_eq:
  "buildNormalizedTable fcRows average =
     map (\<lambda>row. \<lparr> NormalizedTableRow.controlName = FoldChangeTableRow.controlName row,
                     normalizedControl =
                       num_div (controlFoldChange row)
                         (if average = Finite 0 then Finite 1 else average),
                     NormalizedTableRow.observedName = FoldChangeTableRow.observedName row,
                     normalizedObserved =
                       num_div (observedFoldChange row)
                         (if average = Finite 0 then Finite 1 else average) \<rparr>)
       fcRows"
  by (simp add: buildNormalizedTable_def Let_def num_eq_zero)








lemma replica_row_is_replica: "isReplicaRow (replica_row tg hg r)"
  by (simp add: replica_row_def)






text \<open>
  Where the arithmetic shows: the binary64 value nearest to 0.00035 lies below it and
  rounds to 0.0003, but its product with \<open>10\<^sup>4\<close> is rounded to 3.5, so \<open>roundTo\<close> gives
  0.0004; and the product of \<open>2\<^sup>1\<^sup>0\<^sup>2\<^sup>0\<close> with \<open>10\<^sup>4\<close> overflows.
\<close>

lemma roundTo_examples:
  "fl (35 / 100000) = Finite (6456360425798343 / 2 ^ 64)"
  "round4 (6456360425798343 / 2 ^ 64) = 3 / 10000"
  "roundTo (Finite (6456360425798343 / 2 ^ 64)) (Finite 4) = fl (4 / 10000)"
  "roundTo (Finite (2 ^ 1020)) (Finite 4) = PosInfinity"
proof -
  show "fl (35 / 100000) = Finite (6456360425798343 / 2 ^ 64)"
    by (simp add: fl_eval)
  show "round4 (6456360425798343 / 2 ^ 64) = 3 / 10000"
    by (simp add: round4_def)
  have p: "fl (4035225266123964375 / 1152921504606846976) = Finite (7 / 2)"
    by (simp add: fl_eval)
  show "roundTo (Finite (6456360425798343 / 2 ^ 64)) (Finite 4) = fl (4 / 10000)"
    by (simp add: roundTo_4 p)
  have q: "fl (2 ^ 1020 * 10 ^ 4) = PosInfinity"
    using fl_overflow_examples(2) by simp
  show "roundTo (Finite (2 ^ 1020)) (Finite 4) = PosInfinity"
    by (simp only: roundTo_4 number.case q)
qed

subsection \<open>Scenario B\<close>

text \<open>
  With the samples S1 and S2 and the control S1, the fold changes 1 and 4 of scenario A
  give the control average 1 and the normalised values 1 and 4.
\<close>

lemma scenarioA_rows:
  "calculateProcessingRows scenarioA_TP53 scenarioA_GAPDH scenarioA_config
     = (let t1 = replicaGroups scenarioA_TP53 ! 0; h1 = replicaGroups scenarioA_GAPDH ! 0;
            t2 = replicaGroups scenarioA_TP53 ! 1; h2 = replicaGroups scenarioA_GAPDH ! 1
        in [summary_row t1 h1 (Finite 5) 3,
            replica_row t1 h1 0, replica_row t1 h1 1, replica_row t1 h1 2,
            summary_row t2 h2 (Finite 5) 3,
            replica_row t2 h2 0, replica_row t2 h2 1, replica_row t2 h2 2])"
  unfolding calculateProcessingRows_zip scenarioA_reference
  by (simp add: scenarioA_groups scenarioA_config_def replica_rows_concat eval_nat_numeral Let_def)

lemma scenarioA_lookup:
  "foldChange_lookup (processGene scenarioA_TP53 scenarioA_GAPDH scenarioA_config) ''S1'' = Finite 1"
  "foldChange_lookup (processGene scenarioA_TP53 scenarioA_GAPDH scenarioA_config) ''S2'' = Finite 4"
  by (simp_all add: foldChange_lookup_def processGene_def scenarioA_rows Let_def
        summary_row_fields replica_row_is_replica scenarioA_groups scenarioA_means
        scenarioA_differences foldChange_zero foldChange_minus_two)

lemma scenario_B:
  "generateGeneOutput (processGene scenarioA_TP53 scenarioA_GAPDH scenarioA_config)
     [''S1''] [''S1'', ''S2'']
   = \<lparr> GeneOutputResult.geneName = ''TP53'',
       foldChangeRows = [\<lparr> FoldChangeTableRow.controlName = ''S1'', controlFoldChange = Finite 1,
                           FoldChangeTableRow.observedName = ''S2'', observedFoldChange = Finite 4 \<rparr>],
       controlAverage = Finite 1,
       normalizedRows = [\<lparr> NormalizedTableRow.controlName = ''S1'', normalizedControl = Finite 1,
                           NormalizedTableRow.observedName = ''S2'', normalizedObserved = Finite 4 \<rparr>] \<rparr>"
proof -
  have fc: "buildFoldChangeTable (processGene scenarioA_TP53 scenarioA_GAPDH scenarioA_config)
              [''S1''] [''S1'', ''S2'']
            = [\<lparr> FoldChangeTableRow.controlName = ''S1'', controlFoldChange = Finite 1,
                 FoldChangeTableRow.observedName = ''S2'', observedFoldChange = Finite 4 \<rparr>]"
    by (simp add: buildFoldChangeTable_def slice_def at_index_def scenarioA_lookup)
  have nm: "GeneProcessingResult.geneName (processGene scenarioA_TP53 scenarioA_GAPDH scenarioA_config)
              = ''TP53''"
    by (simp add: processGene_def scenarioA_TP53_def Let_def)
  have avg: "calculateControlAverage
               [\<lparr> FoldChangeTableRow.controlName = ''S1'', controlFoldChange = Finite 1,
                  FoldChangeTableRow.observedName = ''S2'', observedFoldChange = Finite 4 \<rparr>]
             = Finite 1"
    by (simp add: calculateControlAverage_def mean_def fl_small_values)
  have rd: "roundTo (Finite 1) (Finite 4) = Finite 1"
    by (simp add: roundTo_4 fl_small_values)
  show ?thesis
    by (simp add: generateGeneOutput_def fc nm avg rd Let_def buildNormalizedTable_eq
          fl_small_values)
qed

end
